theory Spec2Isabelle
  imports Complex_Main "HOL-Library.Sublist"
begin

chapter \<open>The resilient LLM client layer of the note-taking application\<close>

text \<open>
  A shallow embedding of \<^verbatim>\<open>lib/ai/errors.ts\<close>, \<^verbatim>\<open>lib/ai/utils.ts\<close>,
  \<^verbatim>\<open>lib/ai/gemini-client.ts\<close> and \<^verbatim>\<open>lib/ai/tag-generation.ts\<close>. Every
  definition keeps the name and the branch order of the TypeScript function it embeds.
  A thrown exception is the \<open>Inl\<close> side of a sum, a promise is the value it settles
  to, and the remote provider and the mocked client are parameters.
\<close>

section \<open>JavaScript strings and numbers\<close>

text \<open>
  A JavaScript string is a sequence of UTF-16 code units: \<^verbatim>\<open>length\<close> counts code
  units and a regular expression without the \<^verbatim>\<open>u\<close> flag reads code units. A code
  unit is an integer between 0 and 65535; \<open>js\<close> writes an ASCII literal. The numbers
  of the program that count tokens, attempts, tags or milliseconds are integers here, and
  the sampling temperature is a rational; what the program computes from them with a
  division or a decimal fraction is rounded to a double.
\<close>

type_synonym jsstring = "int list"

abbreviation (input) js :: "string \<Rightarrow> jsstring" where
  "js s \<equiv> map of_char s"

text \<open>\<^verbatim>\<open>s.includes(sub)\<close>: \<open>sub\<close> occurs in \<open>s\<close> as a contiguous block.\<close>

fun js_includes :: "jsstring \<Rightarrow> jsstring \<Rightarrow> bool" where
  "js_includes [] sub = (sub = [])"
| "js_includes (c # cs) sub = (prefix sub (c # cs) \<or> js_includes cs sub)"

text \<open>
  \<^verbatim>\<open>s.trim()\<close> removes the WhiteSpace and LineTerminator code points of ECMAScript
  from both ends.
\<close>

definition isWhiteSpace :: "int \<Rightarrow> bool" where
  "isWhiteSpace c =
     (List.member [0x09, 0x0A, 0x0B, 0x0C, 0x0D, 0x20, 0xA0, 0x1680, 0x2028, 0x2029,
                   0x202F, 0x205F, 0x3000, 0xFEFF] c
      \<or> (0x2000 \<le> c \<and> c \<le> 0x200A))"

definition trim :: "jsstring \<Rightarrow> jsstring" where
  "trim s = rev (dropWhile isWhiteSpace (rev (dropWhile isWhiteSpace s)))"

text \<open>
  \<^verbatim>\<open>s.substring(0, n)\<close>: a negative \<open>n\<close> counts as 0 and an \<open>n\<close> beyond the
  end as the length.
\<close>

definition substring0 :: "jsstring \<Rightarrow> int \<Rightarrow> jsstring" where
  "substring0 s n = take (nat n) s"

text \<open>\<^verbatim>\<open>s.lastIndexOf(c)\<close> for a single code unit: the last index, or -1.\<close>

primrec lastIndexOf_from :: "jsstring \<Rightarrow> int \<Rightarrow> int \<Rightarrow> int \<Rightarrow> int" where
  "lastIndexOf_from [] c i found = found"
| "lastIndexOf_from (x # xs) c i found =
     lastIndexOf_from xs c (i + 1) (if x = c then i else found)"

definition lastIndexOf :: "jsstring \<Rightarrow> int \<Rightarrow> int" where
  "lastIndexOf s c = lastIndexOf_from s c 0 (- 1)"

text \<open>\<^verbatim>\<open>xs.slice(0, n)\<close>: a negative \<open>n\<close> counts from the end.\<close>

definition slice0 :: "'a list \<Rightarrow> int \<Rightarrow> 'a list" where
  "slice0 xs n = (if n < 0 then take (nat (int (length xs) + n)) xs else take (nat n) xs)"

text \<open>\<^verbatim>\<open>s.split(sep)\<close> for a separator of one code unit.\<close>

fun split_on :: "int \<Rightarrow> jsstring \<Rightarrow> jsstring list" where
  "split_on sep [] = [[]]"
| "split_on sep (c # cs) =
     (case split_on sep cs of
        [] \<Rightarrow> [[c]]
      | l # ls \<Rightarrow> if c = sep then [] # l # ls else (c # l) # ls)"

text \<open>
  The decimal rendering of an integer, as a template literal \<^verbatim>\<open>${n}\<close> prints it
  (exact below \<open>10^21\<close> in absolute value).
\<close>

function show_nat :: "nat \<Rightarrow> jsstring" where
  "show_nat n = (if n < 10 then [0x30 + int n] else show_nat (n div 10) @ [0x30 + int (n mod 10)])"
  by pat_completeness auto
termination
  by (relation "measure (\<lambda>n. n)") auto

declare show_nat.simps [simp del]

definition show_int :: "int \<Rightarrow> jsstring" where
  "show_int i = (if i < 0 then 0x2D # show_nat (nat (- i)) else show_nat (nat i))"

text \<open>
  \<^verbatim>\<open>x || d\<close> on an optional number and on an optional string: \<^verbatim>\<open>undefined\<close>, 0
  and the empty string are falsy.
\<close>

definition or_number :: "'a::zero option \<Rightarrow> 'a \<Rightarrow> 'a" where
  "or_number x d = (case x of None \<Rightarrow> d | Some v \<Rightarrow> if v = 0 then d else v)"

definition or_string :: "jsstring option \<Rightarrow> jsstring \<Rightarrow> jsstring" where
  "or_string x d = (case x of None \<Rightarrow> d | Some v \<Rightarrow> if v = [] then d else v)"

text \<open>
  A Number of the program is an IEEE 754 binary64 value. The counts above stay far below
  \<open>2^53\<close>, where binary64 holds every integer exactly. A quotient, and a product with
  a decimal fraction, is rounded: \<open>round_to_double x\<close> is the binary64 value nearest
  to the rational \<open>x\<close>, a tie going to the even significand, which is how ECMAScript
  rounds every arithmetic operation and every decimal literal. The significand has 53
  bits, so the unit in the last place of a value between \<open>2^e\<close> and \<open>2^(e+1)\<close>
  is \<open>2^(e-52)\<close>. The exponent range is not modelled: the values rounded here are 0
  or lie in the normal range of binary64.
\<close>

text \<open>The number of binary digits of a positive integer.\<close>

function bit_length :: "int \<Rightarrow> int" where
  "bit_length n = (if n \<le> 0 then 0 else 1 + bit_length (n div 2))"
  by pat_completeness auto
termination
  by (relation "measure nat") auto

declare bit_length.simps [simp del]

text \<open>
  The binary exponent of a positive rational \<open>x\<close>, the \<open>e\<close> with
  \<open>2^e \<le> x < 2^(e+1)\<close>: for \<open>x = p / q\<close> it is the difference of the bit lengths
  of \<open>p\<close> and \<open>q\<close>, or one less.
\<close>

definition binary_exponent :: "rat \<Rightarrow> int" where
  "binary_exponent x =
     (case quotient_of x of
        (p, q) \<Rightarrow>
          (let d = bit_length p - bit_length q
           in if 2 powi d \<le> x then d else d - 1))"

text \<open>The nearest integer, a tie going to the even one.\<close>

definition round_half_even :: "rat \<Rightarrow> int" where
  "round_half_even q =
     (let f = \<lfloor>q\<rfloor>; r = q - of_int f
      in if r < 1/2 then f else if 1/2 < r then f + 1 else if even f then f else f + 1)"

definition round_to_double :: "rat \<Rightarrow> rat" where
  "round_to_double x =
     (if x = 0 then 0
      else
        let ulp = 2 powi (binary_exponent \<bar>x\<bar> - 52);
            n = round_half_even (\<bar>x\<bar> / ulp)
        in sgn x * (of_int n * ulp))"

section \<open>errors.ts\<close>

text \<open>
  The \<^verbatim>\<open>type\<close> field of a \<^verbatim>\<open>GeminiError\<close> is a string at run time. The enum
  \<^verbatim>\<open>GeminiErrorType\<close> has the first eight values; \<^verbatim>\<open>tag-generation.ts\<close> casts the
  strings \<^verbatim>\<open>'INVALID_INPUT'\<close> and \<^verbatim>\<open>'API_ERROR'\<close> to the enum type, which adds two
  values the enum does not declare.
\<close>

datatype GeminiErrorType =
    API_KEY_INVALID
  | QUOTA_EXCEEDED
  | TIMEOUT
  | CONTENT_FILTERED
  | NETWORK_ERROR
  | TOKEN_LIMIT_EXCEEDED
  | MODEL_NOT_FOUND
  | UNKNOWN
  | INVALID_INPUT
  | API_ERROR

text \<open>
  A raw error is the value a provider call or a mock rejects with: an object whose
  \<^verbatim>\<open>message\<close>, \<^verbatim>\<open>name\<close> and \<^verbatim>\<open>code\<close> are strings when present and whose
  \<^verbatim>\<open>status\<close> is a number when present; \<open>instanceof_Error\<close> records whether it is an
  instance of \<^verbatim>\<open>Error\<close>.
\<close>

record raw_error =
  message :: "jsstring option"
  status :: "int option"
  name :: "jsstring option"
  code :: "jsstring option"
  instanceof_Error :: bool

text \<open>\<^verbatim>\<open>new Error(m)\<close>.\<close>

definition new_Error :: "jsstring \<Rightarrow> raw_error" where
  "new_Error m =
     \<lparr>message = Some m, status = None, name = Some (js ''Error''), code = None,
      instanceof_Error = True\<rparr>"

record GeminiError =
  type :: GeminiErrorType
  message :: jsstring
  originalError :: "raw_error option"
  statusCode :: "int option"

text \<open>What a rejected promise carries: a \<^verbatim>\<open>GeminiError\<close> or any other value.\<close>

datatype thrown = Thrown_GeminiError GeminiError | Thrown_value raw_error

definition isRetryable :: "GeminiError \<Rightarrow> bool" where
  "isRetryable e = List.member [NETWORK_ERROR, TIMEOUT, QUOTA_EXCEEDED] (type e)"

definition getUserMessage :: "GeminiError \<Rightarrow> jsstring" where
  "getUserMessage e =
     (case type e of
        API_KEY_INVALID \<Rightarrow>
         [0x0041, 0x0050, 0x0049, 0x0020, 0xD0A4, 0xAC00, 0x0020, 0xC720, 0xD6A8, 0xD558,
          0xC9C0, 0x0020, 0xC54A, 0xC2B5, 0xB2C8, 0xB2E4, 0x002E, 0x0020, 0xC124, 0xC815,
          0xC744, 0x0020, 0xD655, 0xC778, 0xD574, 0xC8FC, 0xC138, 0xC694, 0x002E]
      | QUOTA_EXCEEDED \<Rightarrow>
         [0x0041, 0x0050, 0x0049, 0x0020, 0xC0AC, 0xC6A9, 0xB7C9, 0x0020, 0xD55C, 0xB3C4,
          0xB97C, 0x0020, 0xCD08, 0xACFC, 0xD588, 0xC2B5, 0xB2C8, 0xB2E4, 0x002E, 0x0020,
          0xC7A0, 0xC2DC, 0x0020, 0xD6C4, 0x0020, 0xB2E4, 0xC2DC, 0x0020, 0xC2DC, 0xB3C4,
          0xD574, 0xC8FC, 0xC138, 0xC694, 0x002E]
      | TIMEOUT \<Rightarrow>
         [0xC694, 0xCCAD, 0x0020, 0xC2DC, 0xAC04, 0xC774, 0x0020, 0xCD08, 0xACFC, 0xB418,
          0xC5C8, 0xC2B5, 0xB2C8, 0xB2E4, 0x002E, 0x0020, 0xB2E4, 0xC2DC, 0x0020, 0xC2DC,
          0xB3C4, 0xD574, 0xC8FC, 0xC138, 0xC694, 0x002E]
      | CONTENT_FILTERED \<Rightarrow>
         [0xCF58, 0xD150, 0xCE20, 0xAC00, 0x0020, 0xD544, 0xD130, 0xB9C1, 0xB418, 0xC5C8,
          0xC2B5, 0xB2C8, 0xB2E4, 0x002E, 0x0020, 0xB2E4, 0xB978, 0x0020, 0xB0B4, 0xC6A9,
          0xC73C, 0xB85C, 0x0020, 0xC2DC, 0xB3C4, 0xD574, 0xC8FC, 0xC138, 0xC694, 0x002E]
      | TOKEN_LIMIT_EXCEEDED \<Rightarrow>
         [0xD14D, 0xC2A4, 0xD2B8, 0xAC00, 0x0020, 0xB108, 0xBB34, 0x0020, 0xAE41, 0xB2C8,
          0xB2E4, 0x002E, 0x0020, 0xB354, 0x0020, 0xC9E7, 0xC740, 0x0020, 0xB0B4, 0xC6A9,
          0xC73C, 0xB85C, 0x0020, 0xC2DC, 0xB3C4, 0xD574, 0xC8FC, 0xC138, 0xC694, 0x002E]
      | MODEL_NOT_FOUND \<Rightarrow>
         [0xC694, 0xCCAD, 0xD55C, 0x0020, 0x0041, 0x0049, 0x0020, 0xBAA8, 0xB378, 0xC744,
          0x0020, 0xCC3E, 0xC744, 0x0020, 0xC218, 0x0020, 0xC5C6, 0xC2B5, 0xB2C8, 0xB2E4,
          0x002E]
      | NETWORK_ERROR \<Rightarrow>
         [0xB124, 0xD2B8, 0xC6CC, 0xD06C, 0x0020, 0xC5F0, 0xACB0, 0xC5D0, 0x0020, 0xBB38,
          0xC81C, 0xAC00, 0x0020, 0xC788, 0xC2B5, 0xB2C8, 0xB2E4, 0x002E, 0x0020, 0xC5F0,
          0xACB0, 0xC744, 0x0020, 0xD655, 0xC778, 0xD574, 0xC8FC, 0xC138, 0xC694, 0x002E]
      | _ \<Rightarrow>
         [0xC54C, 0x0020, 0xC218, 0x0020, 0xC5C6, 0xB294, 0x0020, 0xC624, 0xB958, 0xAC00,
          0x0020, 0xBC1C, 0xC0DD, 0xD588, 0xC2B5, 0xB2C8, 0xB2E4, 0x002E, 0x0020, 0xB2E4,
          0xC2DC, 0x0020, 0xC2DC, 0xB3C4, 0xD574, 0xC8FC, 0xC138, 0xC694, 0x002E])"

text \<open>\<^verbatim>\<open>error.message?.includes(s)\<close>: an absent message is falsy.\<close>

definition message_includes :: "raw_error \<Rightarrow> string \<Rightarrow> bool" where
  "message_includes error s =
     (case raw_error.message error of None \<Rightarrow> False | Some m \<Rightarrow> js_includes m (js s))"

definition parseGeminiError :: "raw_error \<Rightarrow> GeminiError" where
  "parseGeminiError error =
     (if message_includes error ''API key'' \<or> status error = Some 401 then
        \<lparr>type = API_KEY_INVALID, message = js ''Invalid API key'',
         originalError = Some error, statusCode = status error\<rparr>
      else if status error = Some 429 \<or> message_includes error ''quota'' then
        \<lparr>type = QUOTA_EXCEEDED, message = js ''API quota exceeded'',
         originalError = Some error, statusCode = status error\<rparr>
      else if name error = Some (js ''TimeoutError'') \<or> code error = Some (js ''TIMEOUT'') then
        \<lparr>type = TIMEOUT, message = js ''Request timeout'',
         originalError = Some error, statusCode = None\<rparr>
      else if message_includes error ''content'' \<and> message_includes error ''filter'' then
        \<lparr>type = CONTENT_FILTERED, message = js ''Content filtered'',
         originalError = Some error, statusCode = status error\<rparr>
      else if message_includes error ''token'' \<and> message_includes error ''limit'' then
        \<lparr>type = TOKEN_LIMIT_EXCEEDED, message = js ''Token limit exceeded'',
         originalError = Some error, statusCode = status error\<rparr>
      else if status error = Some 404 \<or> message_includes error ''model'' then
        \<lparr>type = MODEL_NOT_FOUND, message = js ''Model not found'',
         originalError = Some error, statusCode = status error\<rparr>
      else if code error = Some (js ''ENOTFOUND'') \<or> code error = Some (js ''ECONNREFUSED'') then
        \<lparr>type = NETWORK_ERROR, message = js ''Network error'',
         originalError = Some error, statusCode = None\<rparr>
      else
        \<lparr>type = UNKNOWN,
         message = or_string (raw_error.message error) (js ''Unknown error''),
         originalError = Some error, statusCode = status error\<rparr>)"

text \<open>
  \<^verbatim>\<open>isNonRetryableError\<close> classifies a value that is not a \<^verbatim>\<open>GeminiError\<close> first.
\<close>

definition isNonRetryableError :: "thrown \<Rightarrow> bool" where
  "isNonRetryableError error =
     (let geminiError =
            (case error of
               Thrown_GeminiError g \<Rightarrow> g
             | Thrown_value e \<Rightarrow> parseGeminiError e)
      in \<not> isRetryable geminiError)"

section \<open>utils.ts\<close>

text \<open>
  The character class of the regular expression in \<^verbatim>\<open>estimateTokens\<close>: the Hangul
  syllables, from U+AC00 to U+D7A3.
\<close>

definition isHangul :: "int \<Rightarrow> bool" where
  "isHangul c = (0xAC00 \<le> c \<and> c \<le> 0xD7A3)"

text \<open>
  \<^verbatim>\<open>Math.ceil(koreanChars * 1.5 + otherChars * 0.25)\<close>. Both products are multiples of
  a quarter, which binary floating point represents exactly, so the rational arithmetic
  here is the arithmetic of the program.
\<close>

definition estimateTokens :: "jsstring \<Rightarrow> int" where
  "estimateTokens text =
     (let koreanChars = int (length (filter isHangul text));
          otherChars = int (length text) - koreanChars
      in \<lceil>of_int koreanChars * (3/2 :: rat) + of_int otherChars * (1/4)\<rceil>)"

text \<open>
  \<^verbatim>\<open>validateTokenLimit\<close>. The literal \<^verbatim>\<open>0.3\<close> and the product
  \<^verbatim>\<open>maxTokens * 0.3\<close> are each rounded to a double before \<^verbatim>\<open>Math.floor\<close>.
\<close>

definition validateTokenLimit :: "int \<Rightarrow> int \<Rightarrow> bool" where
  "validateTokenLimit inputTokens maxTokens =
     (let dynamicReserve =
            \<lfloor>round_to_double (of_int maxTokens * round_to_double (3/10))\<rfloor>;
          reservedTokens = min 2000 dynamicReserve;
          allowedInput = max 1 (maxTokens - reservedTokens)
      in inputTokens \<le> allowedInput)"

text \<open>
  \<^verbatim>\<open>truncateText\<close>. The quotient \<^verbatim>\<open>maxTokens / estimatedTokens\<close>, the literal
  \<^verbatim>\<open>0.9\<close> and the two products of \<^verbatim>\<open>text.length * ratio * 0.9\<close>, taken from left
  to right, are each rounded to a double before \<^verbatim>\<open>Math.floor\<close>. When
  \<open>estimatedTokens\<close> is 0 the text is empty and the result is the empty string in the
  program and here.
\<close>

definition truncateText :: "jsstring \<Rightarrow> int \<Rightarrow> jsstring" where
  "truncateText text maxTokens =
     (let estimatedTokens = estimateTokens text in
      if estimatedTokens \<le> maxTokens then text
      else
        let ratio = round_to_double (of_int maxTokens / of_int estimatedTokens);
            targetLength =
              \<lfloor>round_to_double
                 (round_to_double (of_nat (length text) * ratio) * round_to_double (9/10))\<rfloor>;
            truncated = substring0 text targetLength;
            lastSpaceIndex = lastIndexOf truncated 0x20
        in if lastSpaceIndex > 0 then substring0 truncated lastSpaceIndex
           else truncated)"

text \<open>
  \<^verbatim>\<open>withRetry\<close>. The operation is a state transformer: each call returns its outcome
  and the next state. The result records the outcome (\<open>Inl None\<close> is
  \<^verbatim>\<open>throw undefined\<close>, the value of an unassigned \<^verbatim>\<open>lastError\<close>), the final state,
  the number of calls of the operation and the delays slept through.
\<close>

record ('a, 's) retried =
  outcome :: "thrown option + 'a"
  final_state :: 's
  attempts :: nat
  sleeps :: "int list"

function withRetry_loop ::
  "('s \<Rightarrow> (thrown + 'a) \<times> 's) \<Rightarrow> int \<Rightarrow> int \<Rightarrow> int \<Rightarrow> thrown option \<Rightarrow> 's \<Rightarrow> nat \<Rightarrow> int list
     \<Rightarrow> ('a, 's) retried" where
  "withRetry_loop operation maxRetries backoffMs attempt lastError s n slept =
     (if attempt \<le> maxRetries then
        (case operation s of
           (Inr v, s') \<Rightarrow>
             \<lparr>outcome = Inr v, final_state = s', attempts = n + 1, sleeps = slept\<rparr>
         | (Inl error, s') \<Rightarrow>
             if isNonRetryableError error then
               \<lparr>outcome = Inl (Some error), final_state = s', attempts = n + 1, sleeps = slept\<rparr>
             else
               withRetry_loop operation maxRetries backoffMs (attempt + 1) (Some error) s' (n + 1)
                 (if attempt < maxRetries then slept @ [backoffMs * attempt] else slept))
      else \<lparr>outcome = Inl lastError, final_state = s, attempts = n, sleeps = slept\<rparr>)"
  by pat_completeness auto
termination
  by (relation "measure (\<lambda>(operation, maxRetries, backoffMs, attempt, lastError, s, n, slept).
                   nat (maxRetries + 1 - attempt))") auto

declare withRetry_loop.simps [simp del]

definition withRetry ::
  "('s \<Rightarrow> (thrown + 'a) \<times> 's) \<Rightarrow> int \<Rightarrow> int \<Rightarrow> 's \<Rightarrow> ('a, 's) retried" where
  "withRetry operation maxRetries backoffMs s =
     withRetry_loop operation maxRetries backoffMs 1 None s 0 []"

text \<open>
  \<^verbatim>\<open>withTimeout\<close> races a promise against a timer. The promise is described by the
  side that wins: it settles first, with a value or a rejection, or the timer fires first.
\<close>

datatype 'a race = Settles_first "thrown + 'a" | Timer_first

text \<open>The error the timer rejects with.\<close>

definition timeout_error :: "int \<Rightarrow> raw_error" where
  "timeout_error timeoutMs =
     new_Error (js ''Operation timed out after '' @ show_int timeoutMs @ js ''ms'')"

definition withTimeout :: "'a race \<Rightarrow> int \<Rightarrow> thrown + 'a" where
  "withTimeout promise timeoutMs =
     (case promise of
        Settles_first r \<Rightarrow> r
      | Timer_first \<Rightarrow> Inl (Thrown_value (timeout_error timeoutMs)))"

section \<open>gemini-client.ts\<close>

record GeminiConfig =
  apiKey :: jsstring
  model :: jsstring
  maxTokens :: int
  timeout :: int
  debug :: bool
  rateLimitPerMinute :: int

record GenerateTextRequest =
  prompt :: jsstring
  model :: "jsstring option"
  maxTokens :: "int option"
  temperature :: "rat option"

record GenerateTextResponse =
  "text" :: jsstring
  model :: jsstring
  inputTokens :: int
  outputTokens :: int
  finishReason :: jsstring

text \<open>
  The remote provider, \<^verbatim>\<open>client.models.generateContent\<close> of the SDK, is a parameter.
  It receives the parameters of the call and answers with a response, a rejection or
  nothing before the timer fires; it may depend on the calls made before. Of the
  response the program reads \<^verbatim>\<open>text\<close> and \<^verbatim>\<open>candidates?.[0]?.finishReason\<close>.
\<close>

record GenerationConfig =
  maxOutputTokens :: int
  temperature :: rat
  topP :: rat
  topK :: int

record GenerateContentParameters =
  model :: jsstring
  contents :: jsstring
  config :: GenerationConfig

record GenerateContentResponse =
  "text" :: "jsstring option"
  finishReason :: "jsstring option"

type_synonym provider =
  "GenerateContentParameters list \<Rightarrow> GenerateContentParameters \<Rightarrow> GenerateContentResponse race"

record api_result =
  "text" :: jsstring
  finishReason :: jsstring

text \<open>
  The argument of \<^verbatim>\<open>generateContent\<close> that \<^verbatim>\<open>callGeminiAPI\<close> builds from the
  request and the configuration.
\<close>

definition generateContent_parameters ::
  "GeminiConfig \<Rightarrow> GenerateTextRequest \<Rightarrow> GenerateContentParameters" where
  "generateContent_parameters cfg request =
     \<lparr>GenerateContentParameters.model =
        or_string (GenerateTextRequest.model request) (GeminiConfig.model cfg),
      contents = prompt request,
      config =
        \<lparr>maxOutputTokens =
           or_number (GenerateTextRequest.maxTokens request) (GeminiConfig.maxTokens cfg),
         GenerationConfig.temperature =
           or_number (GenerateTextRequest.temperature request) (7/10),
         topP = 9/10,
         topK = 40\<rparr>\<rparr>"

text \<open>
  \<^verbatim>\<open>callGeminiAPI\<close> issues one call of the provider, which is appended to the log of
  calls, and rejects an empty or absent text.
\<close>

definition callGeminiAPI ::
  "GeminiConfig \<Rightarrow> provider \<Rightarrow> GenerateTextRequest \<Rightarrow> GenerateContentParameters list
     \<Rightarrow> api_result race \<times> GenerateContentParameters list" where
  "callGeminiAPI cfg provider request calls =
     (case provider calls (generateContent_parameters cfg request) of
        Timer_first \<Rightarrow> Timer_first
      | Settles_first (Inl error) \<Rightarrow> Settles_first (Inl error)
      | Settles_first (Inr response) \<Rightarrow>
          if or_string (GenerateContentResponse.text response) [] = [] then
            Settles_first
              (Inl (Thrown_value (new_Error (js ''Empty response from Gemini API''))))
          else
            Settles_first
              (Inr \<lparr>api_result.text = or_string (GenerateContentResponse.text response) [],
                    api_result.finishReason =
                      or_string (GenerateContentResponse.finishReason response) (js ''stop'')\<rparr>),
      calls @ [generateContent_parameters cfg request])"

text \<open>The methods of the class that wrap the functions of \<^verbatim>\<open>utils.ts\<close>.\<close>

definition GeminiClient_validateTokenLimit :: "GeminiConfig \<Rightarrow> int \<Rightarrow> int option \<Rightarrow> bool" where
  "GeminiClient_validateTokenLimit cfg inputTokens' maxTokens' =
     validateTokenLimit inputTokens' (or_number maxTokens' (GeminiConfig.maxTokens cfg))"

definition truncateToTokenLimit :: "GeminiConfig \<Rightarrow> jsstring \<Rightarrow> int option \<Rightarrow> jsstring" where
  "truncateToTokenLimit cfg text' maxTokens' =
     truncateText text' (or_number maxTokens' (GeminiConfig.maxTokens cfg))"

text \<open>
  A thrown value read as an object: a \<^verbatim>\<open>GeminiError\<close> has a message and the name
  \<^verbatim>\<open>'GeminiError'\<close>, and neither \<^verbatim>\<open>status\<close> nor \<^verbatim>\<open>code\<close>.
\<close>

definition error_object :: "thrown \<Rightarrow> raw_error" where
  "error_object error =
     (case error of
        Thrown_value e \<Rightarrow> e
      | Thrown_GeminiError g \<Rightarrow>
          \<lparr>raw_error.message = Some (GeminiError.message g), status = None,
           name = Some (js ''GeminiError''), code = None, instanceof_Error = True\<rparr>)"

text \<open>
  The \<^verbatim>\<open>try\<close> block of \<^verbatim>\<open>generateText\<close>: \<^verbatim>\<open>withRetry\<close> with its default arguments
  around \<^verbatim>\<open>withTimeout\<close> around \<^verbatim>\<open>callGeminiAPI\<close>, and the \<^verbatim>\<open>catch\<close> block that
  classifies what was thrown. The state of the retried operation is the log of provider
  calls. Reading \<^verbatim>\<open>message\<close> of \<^verbatim>\<open>undefined\<close> raises a \<^verbatim>\<open>TypeError\<close>. The usage
  log goes to the console only and is left out.
\<close>

definition generateText_try ::
  "GeminiConfig \<Rightarrow> provider \<Rightarrow> GenerateTextRequest \<Rightarrow> int
     \<Rightarrow> (thrown + GenerateTextResponse) \<times> GenerateContentParameters list" where
  "generateText_try cfg provider request inputTokens' =
     (let r = withRetry
                (\<lambda>calls. case callGeminiAPI cfg provider request calls of
                            (promise, calls') \<Rightarrow> (withTimeout promise (timeout cfg), calls'))
                3 1000 []
      in (case outcome r of
            Inr result \<Rightarrow>
              Inr \<lparr>GenerateTextResponse.text = api_result.text result,
                   GenerateTextResponse.model =
                     or_string (GenerateTextRequest.model request) (GeminiConfig.model cfg),
                   inputTokens = inputTokens',
                   outputTokens = estimateTokens (api_result.text result),
                   GenerateTextResponse.finishReason =
                     or_string (Some (api_result.finishReason result)) (js ''stop'')\<rparr>
          | Inl None \<Rightarrow>
              Inl (Thrown_value
                     \<lparr>raw_error.message = Some (js ''Cannot read properties of undefined''),
                      status = None, name = Some (js ''TypeError''), code = None,
                      instanceof_Error = True\<rparr>)
          | Inl (Some error) \<Rightarrow>
              Inl (Thrown_GeminiError (parseGeminiError (error_object error))),
          final_state r))"

text \<open>The error of the pre-flight check, with the estimate of the whole prompt.\<close>

definition token_limit_error :: "int \<Rightarrow> GeminiError" where
  "token_limit_error n =
     \<lparr>type = TOKEN_LIMIT_EXCEEDED,
      message = js ''Input tokens ('' @ show_int n @ js '') exceed limit'',
      originalError = None, statusCode = None\<rparr>"

text \<open>
  \<^verbatim>\<open>generateText\<close> returns the outcome and the log of the calls made to the provider.
\<close>

definition generateText ::
  "GeminiConfig \<Rightarrow> provider \<Rightarrow> GenerateTextRequest
     \<Rightarrow> (thrown + GenerateTextResponse) \<times> GenerateContentParameters list" where
  "generateText cfg provider request =
     (let inputTokens = estimateTokens (prompt request);
          effectiveMax =
            or_number (GenerateTextRequest.maxTokens request) (GeminiConfig.maxTokens cfg)
      in if \<not> GeminiClient_validateTokenLimit cfg inputTokens (Some effectiveMax) then
           (let truncated = truncateToTokenLimit cfg (prompt request) (Some effectiveMax);
                truncatedTokens = estimateTokens truncated
            in if \<not> GeminiClient_validateTokenLimit cfg truncatedTokens (Some effectiveMax) then
                 (Inl (Thrown_GeminiError (token_limit_error inputTokens)), [])
               else generateText_try cfg provider (request\<lparr>prompt := truncated\<rparr>) inputTokens)
         else generateText_try cfg provider request inputTokens)"

section \<open>JSON.parse\<close>

text \<open>
  \<^verbatim>\<open>JSON.parse\<close> is a built-in of the runtime. The model follows the JSON grammar
  (ECMA-404): white space, the three literals, numbers, strings with their escapes, arrays
  and objects. A number keeps its lexeme: the program asks of a parsed value only whether
  it is a string. \<open>None\<close> is the \<^verbatim>\<open>SyntaxError\<close>.
\<close>

datatype json =
    JNull
  | JBool bool
  | JNumber jsstring
  | JString jsstring
  | JArray "json list"
  | JObject "(jsstring \<times> json) list"

definition skip_ws :: "jsstring \<Rightarrow> jsstring" where
  "skip_ws s = dropWhile (\<lambda>c. List.member [0x20, 0x09, 0x0A, 0x0D] c) s"

definition isDigit :: "int \<Rightarrow> bool" where
  "isDigit c = (0x30 \<le> c \<and> c \<le> 0x39)"

definition hex_value :: "int \<Rightarrow> int option" where
  "hex_value c =
     (if 0x30 \<le> c \<and> c \<le> 0x39 then Some (c - 0x30)
      else if 0x41 \<le> c \<and> c \<le> 0x46 then Some (c - 0x41 + 10)
      else if 0x61 \<le> c \<and> c \<le> 0x66 then Some (c - 0x61 + 10)
      else None)"

text \<open>The single-character escapes after a backslash.\<close>

definition unescape :: "int \<Rightarrow> int option" where
  "unescape c =
     (if c = 0x22 then Some 0x22
      else if c = 0x5C then Some 0x5C
      else if c = 0x2F then Some 0x2F
      else if c = 0x62 then Some 0x08
      else if c = 0x66 then Some 0x0C
      else if c = 0x6E then Some 0x0A
      else if c = 0x72 then Some 0x0D
      else if c = 0x74 then Some 0x09
      else None)"

definition push_char :: "int \<Rightarrow> (jsstring \<times> jsstring) option \<Rightarrow> (jsstring \<times> jsstring) option" where
  "push_char c r = (case r of None \<Rightarrow> None | Some (str, rest) \<Rightarrow> Some (c # str, rest))"

text \<open>
  The characters of a string after its opening quote, up to the closing quote: the
  string's value and the rest of the input.
\<close>

fun parse_chars :: "jsstring \<Rightarrow> (jsstring \<times> jsstring) option" where
  "parse_chars [] = None"
| "parse_chars (c # cs) =
     (if c = 0x22 then Some ([], cs)
      else if c = 0x5C then
        (case cs of
           [] \<Rightarrow> None
         | e # es \<Rightarrow>
             if e = 0x75 then
               (case es of
                  h1 # h2 # h3 # h4 # rest \<Rightarrow>
                    (case (hex_value h1, hex_value h2, hex_value h3, hex_value h4) of
                       (Some a, Some b, Some c', Some d) \<Rightarrow>
                         push_char (4096 * a + 256 * b + 16 * c' + d) (parse_chars rest)
                     | _ \<Rightarrow> None)
                | _ \<Rightarrow> None)
             else
               (case unescape e of
                  None \<Rightarrow> None
                | Some u \<Rightarrow> push_char u (parse_chars es)))
      else if c < 0x20 then None
      else push_char c (parse_chars cs))"

definition lex_digits :: "jsstring \<Rightarrow> (jsstring \<times> jsstring) option" where
  "lex_digits s =
     (if takeWhile isDigit s = [] then None
      else Some (takeWhile isDigit s, dropWhile isDigit s))"

definition lex_sign :: "int list \<Rightarrow> jsstring \<Rightarrow> jsstring \<times> jsstring" where
  "lex_sign signs s =
     (case s of
        [] \<Rightarrow> ([], s)
      | c # cs \<Rightarrow> if List.member signs c then ([c], cs) else ([], s))"

definition lex_int :: "jsstring \<Rightarrow> (jsstring \<times> jsstring) option" where
  "lex_int s =
     (case s of
        [] \<Rightarrow> None
      | c # cs \<Rightarrow> if c = 0x30 then Some ([c], cs) else lex_digits s)"

definition lex_frac :: "jsstring \<Rightarrow> (jsstring \<times> jsstring) option" where
  "lex_frac s =
     (case s of
        [] \<Rightarrow> Some ([], s)
      | c # cs \<Rightarrow>
          if c = 0x2E then
            (case lex_digits cs of None \<Rightarrow> None | Some (ds, rest) \<Rightarrow> Some (c # ds, rest))
          else Some ([], s))"

definition lex_exp :: "jsstring \<Rightarrow> (jsstring \<times> jsstring) option" where
  "lex_exp s =
     (case s of
        [] \<Rightarrow> Some ([], s)
      | c # cs \<Rightarrow>
          if c = 0x65 \<or> c = 0x45 then
            (case lex_sign [0x2B, 0x2D] cs of
               (sg, s') \<Rightarrow>
                 (case lex_digits s' of
                    None \<Rightarrow> None
                  | Some (ds, rest) \<Rightarrow> Some (c # sg @ ds, rest)))
          else Some ([], s))"

definition parse_number :: "jsstring \<Rightarrow> (jsstring \<times> jsstring) option" where
  "parse_number s =
     (case lex_sign [0x2D] s of
        (sg, s0) \<Rightarrow>
          (case lex_int s0 of
             None \<Rightarrow> None
           | Some (i, s1) \<Rightarrow>
               (case lex_frac s1 of
                  None \<Rightarrow> None
                | Some (f, s2) \<Rightarrow>
                    (case lex_exp s2 of
                       None \<Rightarrow> None
                     | Some (e, s3) \<Rightarrow> Some (sg @ i @ f @ e, s3)))))"

text \<open>
  Values, the elements of an array after its opening bracket and the members of an
  object after its opening brace. The first argument bounds the depth of the calls; of
  two successive nested calls at least one starts on a shorter input, so twice the length
  of the input is always enough.
\<close>

fun parse_value :: "nat \<Rightarrow> jsstring \<Rightarrow> (json \<times> jsstring) option"
  and parse_elements :: "nat \<Rightarrow> jsstring \<Rightarrow> (json list \<times> jsstring) option"
  and parse_members :: "nat \<Rightarrow> jsstring \<Rightarrow> ((jsstring \<times> json) list \<times> jsstring) option"
where
  "parse_value 0 s = None"
| "parse_value (Suc n) s =
     (case skip_ws s of
        [] \<Rightarrow> None
      | c # cs \<Rightarrow>
          if c = 0x22 then
            (case parse_chars cs of None \<Rightarrow> None | Some (str, rest) \<Rightarrow> Some (JString str, rest))
          else if c = 0x5B then
            (case skip_ws cs of
               [] \<Rightarrow> None
             | d # ds \<Rightarrow>
                 if d = 0x5D then Some (JArray [], ds)
                 else (case parse_elements n cs of
                         None \<Rightarrow> None
                       | Some (vs, rest) \<Rightarrow> Some (JArray vs, rest)))
          else if c = 0x7B then
            (case skip_ws cs of
               [] \<Rightarrow> None
             | d # ds \<Rightarrow>
                 if d = 0x7D then Some (JObject [], ds)
                 else (case parse_members n cs of
                         None \<Rightarrow> None
                       | Some (ms, rest) \<Rightarrow> Some (JObject ms, rest)))
          else if prefix (js ''true'') (c # cs) then Some (JBool True, drop 4 (c # cs))
          else if prefix (js ''false'') (c # cs) then Some (JBool False, drop 5 (c # cs))
          else if prefix (js ''null'') (c # cs) then Some (JNull, drop 4 (c # cs))
          else (case parse_number (c # cs) of
                  None \<Rightarrow> None
                | Some (lexeme, rest) \<Rightarrow> Some (JNumber lexeme, rest)))"
| "parse_elements 0 s = None"
| "parse_elements (Suc n) s =
     (case parse_value n s of
        None \<Rightarrow> None
      | Some (v, rest) \<Rightarrow>
          (case skip_ws rest of
             [] \<Rightarrow> None
           | d # ds \<Rightarrow>
               if d = 0x2C then
                 (case parse_elements n ds of
                    None \<Rightarrow> None
                  | Some (vs, rest') \<Rightarrow> Some (v # vs, rest'))
               else if d = 0x5D then Some ([v], ds)
               else None))"
| "parse_members 0 s = None"
| "parse_members (Suc n) s =
     (case skip_ws s of
        [] \<Rightarrow> None
      | c # cs \<Rightarrow>
          if c = 0x22 then
            (case parse_chars cs of
               None \<Rightarrow> None
             | Some (k, rest) \<Rightarrow>
                 (case skip_ws rest of
                    [] \<Rightarrow> None
                  | d # ds \<Rightarrow>
                      if d = 0x3A then
                        (case parse_value n ds of
                           None \<Rightarrow> None
                         | Some (v, rest') \<Rightarrow>
                             (case skip_ws rest' of
                                [] \<Rightarrow> None
                              | e # es \<Rightarrow>
                                  if e = 0x2C then
                                    (case parse_members n es of
                                       None \<Rightarrow> None
                                     | Some (ms, rest'') \<Rightarrow> Some ((k, v) # ms, rest''))
                                  else if e = 0x7D then Some ([(k, v)], es)
                                  else None))
                      else None))
          else None)"

definition JSON_parse :: "jsstring \<Rightarrow> json option" where
  "JSON_parse s =
     (case parse_value (2 * length s + 2) s of
        None \<Rightarrow> None
      | Some (v, rest) \<Rightarrow> if skip_ws rest = [] then Some v else None)"

section \<open>tag-generation.ts\<close>

record GenerateTagsRequest =
  content :: jsstring
  maxTags :: "int option"
  model :: "jsstring option"
  maxTokens :: "int option"

record GenerateTagsResponse =
  tags :: "jsstring list"
  model :: jsstring
  inputTokens :: int
  outputTokens :: int
  finishReason :: jsstring

text \<open>A destructuring default applies to \<^verbatim>\<open>undefined\<close> only.\<close>

definition with_default :: "'a option \<Rightarrow> 'a \<Rightarrow> 'a" where
  "with_default x d = (case x of None \<Rightarrow> d | Some v \<Rightarrow> v)"

text \<open>
  \<^verbatim>\<open>createTagPrompt\<close>: the template around the number of tags and the content.
\<close>

definition prompt_head :: jsstring where
  "prompt_head =
     [0xB2E4, 0xC74C, 0x0020, 0xB178, 0xD2B8, 0x0020, 0xB0B4, 0xC6A9, 0xC744, 0x0020,
      0xBD84, 0xC11D, 0xD558, 0xC5EC, 0x0020, 0xAD00, 0xB828, 0xC131, 0x0020, 0xB192,
      0xC740, 0x0020, 0xD0DC, 0xADF8, 0xB97C, 0x0020, 0xCD5C, 0xB300, 0x0020]"

definition prompt_requirements :: jsstring where
  "prompt_requirements =
     [0xAC1C, 0x0020, 0xC0DD, 0xC131, 0xD574, 0xC8FC, 0xC138, 0xC694, 0x002E, 0x000A,
      0x000A, 0xC694, 0xAD6C, 0xC0AC, 0xD56D, 0x003A, 0x000A, 0x0031, 0x002E, 0x0020,
      0xD0DC, 0xADF8, 0xB294, 0x0020, 0xD55C, 0xAD6D, 0xC5B4, 0xB85C, 0x0020, 0xC791,
      0xC131, 0x000A, 0x0032, 0x002E, 0x0020, 0xAC01, 0x0020, 0xD0DC, 0xADF8, 0xB294,
      0x0020, 0x0032, 0x002D, 0x0031, 0x0030, 0xC790, 0x0020, 0xC774, 0xB0B4, 0x000A,
      0x0033, 0x002E, 0x0020, 0xAD6C, 0xCCB4, 0xC801, 0xC774, 0xACE0, 0x0020, 0xBA85,
      0xD655, 0xD55C, 0x0020, 0xD0A4, 0xC6CC, 0xB4DC, 0x0020, 0xC0AC, 0xC6A9, 0x000A,
      0x0034, 0x002E, 0x0020, 0xC911, 0xBCF5, 0xB418, 0xC9C0, 0x0020, 0xC54A, 0xB294,
      0x0020, 0xB2E4, 0xC591, 0xD55C, 0x0020, 0xAD00, 0xC810, 0xC758, 0x0020, 0xD0DC,
      0xADF8, 0x000A, 0x0035, 0x002E, 0x0020, 0x004A, 0x0053, 0x004F, 0x004E, 0x0020,
      0xBC30, 0xC5F4, 0x0020, 0xD615, 0xD0DC, 0xB85C, 0x0020, 0xC751, 0xB2F5, 0x000A,
      0x000A, 0xB178, 0xD2B8, 0x0020, 0xB0B4, 0xC6A9, 0x003A, 0x000A]"

definition prompt_format :: jsstring where
  "prompt_format =
     [0x000A, 0x000A, 0xC751, 0xB2F5, 0x0020, 0xD615, 0xC2DD, 0x003A, 0x000A, 0x005B,
      0x0022, 0xD0DC, 0xADF8, 0x0031, 0x0022, 0x002C, 0x0020, 0x0022, 0xD0DC, 0xADF8,
      0x0032, 0x0022, 0x002C, 0x0020, 0x0022, 0xD0DC, 0xADF8, 0x0033, 0x0022, 0x005D]"

definition createTagPrompt :: "jsstring \<Rightarrow> int \<Rightarrow> jsstring" where
  "createTagPrompt content' maxTags' =
     prompt_head @ show_int maxTags' @ prompt_requirements @ content' @ prompt_format"

text \<open>
  The regular expression \<^verbatim>\<open>/\[([\s\S]*?)\]/\<close>: the match starts at the first opening
  bracket and, being lazy, ends at the first closing bracket after it; the group is what
  stands between. There is no match when no closing bracket follows the first opening one.
\<close>

definition bracket_match :: "jsstring \<Rightarrow> jsstring option" where
  "bracket_match response =
     (case dropWhile (\<lambda>c. c \<noteq> 0x5B) response of
        [] \<Rightarrow> None
      | b # rest \<Rightarrow>
          if List.member rest 0x5D then Some (takeWhile (\<lambda>c. c \<noteq> 0x5D) rest) else None)"

text \<open>
  \<^verbatim>\<open>cleanLine.replace(/^["']|["']$/g, '')\<close>: a quote at the start is removed, then a
  quote at the end of what is left.
\<close>

definition isQuote :: "int \<Rightarrow> bool" where
  "isQuote c = (c = 0x22 \<or> c = 0x27)"

definition strip_quotes :: "jsstring \<Rightarrow> jsstring" where
  "strip_quotes s =
     (let s1 = (case s of [] \<Rightarrow> [] | c # cs \<Rightarrow> if isQuote c then cs else s)
      in if s1 \<noteq> [] \<and> isQuote (last s1) then butlast s1 else s1)"

text \<open>The loop over the lines of the fallback, with the tags collected so far.\<close>

fun collect_tags :: "jsstring list \<Rightarrow> int \<Rightarrow> jsstring list \<Rightarrow> jsstring list" where
  "collect_tags [] maxTags' tags' = tags'"
| "collect_tags (line # lines) maxTags' tags' =
     (let cleanLine = trim line in
      if cleanLine \<noteq> [] \<and> \<not> prefix [0x5B] cleanLine \<and> \<not> prefix [0x5D] cleanLine then
        (let tag = trim (strip_quotes cleanLine) in
         if tag \<noteq> [] \<and> length tag \<le> 10 then
           (if int (length (tags' @ [tag])) \<ge> maxTags' then tags' @ [tag]
            else collect_tags lines maxTags' (tags' @ [tag]))
         else collect_tags lines maxTags' tags')
      else collect_tags lines maxTags' tags')"

definition isTagString :: "json \<Rightarrow> bool" where
  "isTagString tag = (case tag of JString s \<Rightarrow> length (trim s) > 0 | _ \<Rightarrow> False)"

definition trimTag :: "json \<Rightarrow> jsstring" where
  "trimTag tag = (case tag of JString s \<Rightarrow> trim s | _ \<Rightarrow> [])"

text \<open>
  \<^verbatim>\<open>parseTagsResponse\<close>. A \<^verbatim>\<open>SyntaxError\<close> of \<^verbatim>\<open>JSON.parse\<close> is caught by the
  \<^verbatim>\<open>catch\<close> block around the whole body, which returns the empty list.
\<close>

definition parseTagsResponse :: "jsstring \<Rightarrow> int \<Rightarrow> jsstring list" where
  "parseTagsResponse response maxTags' =
     (let fallback = slice0 (collect_tags (split_on 0x0A response) maxTags' []) maxTags'
      in case bracket_match response of
           None \<Rightarrow> fallback
         | Some inner \<Rightarrow>
             (case JSON_parse ([0x5B] @ inner @ [0x5D]) of
                None \<Rightarrow> []
              | Some (JArray parsed) \<Rightarrow> slice0 (map trimTag (filter isTagString parsed)) maxTags'
              | Some _ \<Rightarrow> fallback))"

text \<open>
  \<^verbatim>\<open>generateTags\<close>. The client's \<^verbatim>\<open>generateText\<close> is a parameter, as the tests mock
  it; the result comes with the log of the requests sent to it. Every exit by exception
  throws a \<^verbatim>\<open>GeminiError\<close>.
\<close>

type_synonym client = "GenerateTextRequest \<Rightarrow> thrown + GenerateTextResponse"

definition invalid_input_message :: jsstring where
  "invalid_input_message =
     [0xB178, 0xD2B8, 0x0020, 0xB0B4, 0xC6A9, 0xC774, 0x0020, 0x0031, 0x0030, 0x0030,
      0xC790, 0x0020, 0xC774, 0xC0C1, 0xC774, 0xC5B4, 0xC57C, 0x0020, 0xD569, 0xB2C8,
      0xB2E4]"

definition token_limit_message :: jsstring where
  "token_limit_message =
     [0xD1A0, 0xD070, 0x0020, 0xC81C, 0xD55C, 0xC744, 0x0020, 0xCD08, 0xACFC, 0xD588,
      0xC2B5, 0xB2C8, 0xB2E4]"

definition api_error_prefix :: jsstring where
  "api_error_prefix =
     [0xD0DC, 0xADF8, 0x0020, 0xC0DD, 0xC131, 0x0020, 0xC911, 0x0020, 0xC624, 0xB958,
      0xAC00, 0x0020, 0xBC1C, 0xC0DD, 0xD588, 0xC2B5, 0xB2C8, 0xB2E4, 0x003A, 0x0020]"

definition unknown_cause :: jsstring where
  "unknown_cause = [0xC54C, 0x0020, 0xC218, 0x0020, 0xC5C6, 0xB294, 0x0020, 0xC624, 0xB958]"

text \<open>
  The error the \<^verbatim>\<open>catch\<close> block of \<^verbatim>\<open>generateTags\<close> wraps a value in that is not a
  \<^verbatim>\<open>GeminiError\<close>. A template literal prints an absent message as \<^verbatim>\<open>undefined\<close>.
\<close>

definition wrapped_error :: "raw_error \<Rightarrow> GeminiError" where
  "wrapped_error error =
     \<lparr>type = API_ERROR,
      message =
        api_error_prefix @
        (if instanceof_Error error
         then with_default (raw_error.message error) (js ''undefined'')
         else unknown_cause),
      originalError = Some error,
      statusCode = None\<rparr>"

text \<open>The \<^verbatim>\<open>try\<close> block of \<^verbatim>\<open>generateTags\<close> and its \<^verbatim>\<open>catch\<close>.\<close>

definition generateTags_try ::
  "client \<Rightarrow> jsstring \<Rightarrow> int \<Rightarrow> jsstring option \<Rightarrow> int
     \<Rightarrow> (GeminiError + GenerateTagsResponse) \<times> GenerateTextRequest list" where
  "generateTags_try generateText' content' maxTags' model' maxTokens' =
     (let call =
            \<lparr>prompt = createTagPrompt content' maxTags',
             GenerateTextRequest.model = Some (or_string model' (js ''gemini-2.0-flash-001'')),
             GenerateTextRequest.maxTokens = Some maxTokens',
             GenerateTextRequest.temperature = Some (3/10)\<rparr>
      in (case generateText' call of
            Inr response \<Rightarrow>
              Inr \<lparr>tags = parseTagsResponse (GenerateTextResponse.text response) maxTags',
                   GenerateTagsResponse.model = GenerateTextResponse.model response,
                   GenerateTagsResponse.inputTokens = GenerateTextResponse.inputTokens response,
                   GenerateTagsResponse.outputTokens = GenerateTextResponse.outputTokens response,
                   GenerateTagsResponse.finishReason = GenerateTextResponse.finishReason response\<rparr>
          | Inl (Thrown_GeminiError error) \<Rightarrow> Inl error
          | Inl (Thrown_value error) \<Rightarrow> Inl (wrapped_error error),
          [call]))"

definition generateTags ::
  "client \<Rightarrow> GenerateTagsRequest
     \<Rightarrow> (GeminiError + GenerateTagsResponse) \<times> GenerateTextRequest list" where
  "generateTags generateText' request =
     (let content' = content request;
          maxTags' = with_default (maxTags request) 6;
          model' = GenerateTagsRequest.model request;
          maxTokens' = with_default (GenerateTagsRequest.maxTokens request) 2000
      in if content' = [] \<or> length (trim content') < 100 then
           (Inl \<lparr>type = INVALID_INPUT, message = invalid_input_message,
                 originalError = None, statusCode = None\<rparr>,
            [])
         else
           (let inputTokens' = estimateTokens content' in
            if \<not> validateTokenLimit inputTokens' maxTokens' then
              (let truncated = truncateText content' maxTokens';
                   truncatedTokens = estimateTokens truncated
               in if \<not> validateTokenLimit truncatedTokens maxTokens' then
                    (Inl \<lparr>type = TOKEN_LIMIT_EXCEEDED, message = token_limit_message,
                          originalError = None, statusCode = None\<rparr>,
                     [])
                  else generateTags_try generateText' truncated maxTags' model' maxTokens')
            else generateTags_try generateText' content' maxTags' model' maxTokens'))"

section \<open>The classifier of the specification\<close>

text \<open>
  The classifier as the specification words it: eight ordered rules, the first match wins,
  and the last rule is the default.
\<close>

definition spec_rules :: "((raw_error \<Rightarrow> bool) \<times> GeminiErrorType) list" where
  "spec_rules =
     [(\<lambda>e. message_includes e ''API key'' \<or> status e = Some 401, API_KEY_INVALID),
      (\<lambda>e. status e = Some 429 \<or> message_includes e ''quota'', QUOTA_EXCEEDED),
      (\<lambda>e. name e = Some (js ''TimeoutError'') \<or> code e = Some (js ''TIMEOUT''), TIMEOUT),
      (\<lambda>e. message_includes e ''content'' \<and> message_includes e ''filter'', CONTENT_FILTERED),
      (\<lambda>e. message_includes e ''token'' \<and> message_includes e ''limit'', TOKEN_LIMIT_EXCEEDED),
      (\<lambda>e. status e = Some 404 \<or> message_includes e ''model'', MODEL_NOT_FOUND),
      (\<lambda>e. code e = Some (js ''ENOTFOUND'') \<or> code e = Some (js ''ECONNREFUSED''),
       NETWORK_ERROR)]"

fun first_match :: "((raw_error \<Rightarrow> bool) \<times> GeminiErrorType) list \<Rightarrow> raw_error \<Rightarrow> GeminiErrorType" where
  "first_match [] e = UNKNOWN"
| "first_match ((applies, kind) # rules) e = (if applies e then kind else first_match rules e)"

definition classify_spec :: "raw_error \<Rightarrow> GeminiErrorType" where
  "classify_spec e = first_match spec_rules e"

section \<open>The weight of a text\<close>

text \<open>
  The sum that \<^verbatim>\<open>estimateTokens\<close> rounds up: 1.5 for each Hangul syllable and 0.25
  for each other code unit. The weight of a text divided by its length is its density.
\<close>

definition token_weight :: "jsstring \<Rightarrow> rat" where
  "token_weight t =
     (let koreanChars = int (length (filter isHangul t));
          otherChars = int (length t) - koreanChars
      in of_int koreanChars * (3/2) + of_int otherChars * (1/4))"

chapter \<open>Properties\<close>

section \<open>Token estimation\<close>

lemma ceiling_divide_of_int:
  "\<lceil>(of_int a :: rat) / of_int b\<rceil> = - ((- a) div b)"
proof -
  have "- ((of_int a :: rat) / of_int b) = of_int (- a) / of_int b"
    by (simp only: of_int_minus minus_divide_left)
  then show ?thesis
    unfolding ceiling_def by (simp only: floor_divide_of_int_eq)
qed

lemma ceiling_weighted:
  "\<lceil>of_int k * (3/2 :: rat) + of_int r * (1/4)\<rceil> = (6 * k + r + 3) div 4"
proof -
  have "of_int k * (3/2 :: rat) + of_int r * (1/4) = of_int (6 * k + r) / of_int 4"
    by simp
  then have "\<lceil>of_int k * (3/2 :: rat) + of_int r * (1/4)\<rceil> = - ((- (6 * k + r)) div 4)"
    by (simp only: ceiling_divide_of_int)
  also have "\<dots> = (6 * k + r + 3) div 4" by linarith
  finally show ?thesis .
qed

text \<open>The estimate in integer arithmetic: the number of quarters, rounded up.\<close>

lemma estimateTokens_int:
  "estimateTokens t =
     (6 * int (length (filter isHangul t)) +
      (int (length t) - int (length (filter isHangul t))) + 3) div 4"
  unfolding estimateTokens_def Let_def by (rule ceiling_weighted)

lemma estimateTokens_code [code]:
  "estimateTokens t =
     (let k = int (length (filter isHangul t)) in (6 * k + (int (length t) - k) + 3) div 4)"
  by (simp add: estimateTokens_int Let_def)

lemma estimateTokens_ge_0: "0 \<le> estimateTokens t"
proof -
  have "length (filter isHangul t) \<le> length t" by simp
  then show ?thesis unfolding estimateTokens_int by linarith
qed

lemma estimateTokens_Nil: "estimateTokens [] = 0"
  by (simp add: estimateTokens_int)

lemma estimateTokens_append_le: "estimateTokens s \<le> estimateTokens (s @ t)"
proof -
  have "length (filter isHangul t) \<le> length t" by simp
  then show ?thesis unfolding estimateTokens_int by (simp add: zdiv_mono1)
qed

lemma length_filter_others:
  "int (length (filter (\<lambda>c. \<not> isHangul c) t)) = int (length t) - int (length (filter isHangul t))"
  using sum_length_filter_compl[of isHangul t] by linarith

text \<open>
  C9. The estimate is never negative, it is 0 on the empty string, it does not decrease
  when a string is appended, and it is the ceiling of 1.5 times the number of Hangul
  syllables plus 0.25 times the number of all other code units.
\<close>

theorem estimateTokens_nonneg_empty_monotone:
  "0 \<le> estimateTokens t
   \<and> estimateTokens [] = 0
   \<and> estimateTokens s \<le> estimateTokens (s @ t)
   \<and> estimateTokens t =
       \<lceil>(3/2 :: rat) * of_nat (length (filter isHangul t))
        + (1/4) * of_nat (length (filter (\<lambda>c. \<not> isHangul c) t))\<rceil>"
proof -
  have "estimateTokens t =
       \<lceil>(3/2 :: rat) * of_nat (length (filter isHangul t))
        + (1/4) * of_nat (length (filter (\<lambda>c. \<not> isHangul c) t))\<rceil>"
  proof -
    have "(of_nat (length (filter (\<lambda>c. \<not> isHangul c) t)) :: rat)
          = of_int (int (length t) - int (length (filter isHangul t)))"
      using length_filter_others[of t] by (metis of_int_of_nat_eq)
    then show ?thesis
      unfolding estimateTokens_def Let_def by (simp add: mult.commute)
  qed
  then show ?thesis
    using estimateTokens_ge_0 estimateTokens_Nil estimateTokens_append_le by blast
qed

section \<open>Rounding to a double\<close>

text \<open>
  The exponent brackets a positive rational between two consecutive powers of two, and
  \<open>round_to_double\<close> returns a significand of 53 bits times the unit in the last
  place, at most half a unit away from its argument.
\<close>

lemma bit_length_bounds:
  "0 < n \<Longrightarrow> 1 \<le> bit_length n \<and> 2 ^ nat (bit_length n - 1) \<le> n \<and> n < 2 ^ nat (bit_length n)"
proof (induction n rule: bit_length.induct)
  case (1 n)
  show ?case
  proof (cases "n div 2 = 0")
    case True
    with "1.prems" have n: "n = 1" by linarith
    have "bit_length (1 div 2) = 0" by (subst bit_length.simps) simp
    then have "bit_length 1 = 1" by (subst bit_length.simps) simp
    then show ?thesis unfolding n by simp
  next
    case False
    with "1.prems" have pos: "0 < n div 2" by linarith
    from "1.IH"[OF _ pos] "1.prems"
    have ih: "1 \<le> bit_length (n div 2)"
      "2 ^ nat (bit_length (n div 2) - 1) \<le> n div 2"
      "n div 2 < 2 ^ nat (bit_length (n div 2))" by simp_all
    have b: "bit_length n = 1 + bit_length (n div 2)"
      using "1.prems" by (subst bit_length.simps) simp
    have e1: "nat (bit_length n - 1) = Suc (nat (bit_length (n div 2) - 1))"
      unfolding b using ih(1) by simp
    have e2: "nat (bit_length n) = Suc (nat (bit_length (n div 2)))"
      unfolding b using ih(1) by simp
    have "2 * 2 ^ nat (bit_length (n div 2) - 1) \<le> n" using ih(2) by linarith
    moreover have "n < 2 * 2 ^ nat (bit_length (n div 2))" using ih(3) by linarith
    ultimately show ?thesis unfolding e1 e2 using b ih(1) by simp
  qed
qed

lemma binary_exponent_le:
  assumes "0 < x"
  shows "2 powi binary_exponent x \<le> x"
proof -
  obtain p q where pq: "quotient_of x = (p, q)" by (cases "quotient_of x")
  have q: "0 < q" using quotient_of_denom_pos[OF pq] .
  have x: "x = of_int p / of_int q" using quotient_of_div[OF pq] .
  have p: "0 < p" using assms q unfolding x by (simp add: zero_less_divide_iff)
  define d where "d = bit_length p - bit_length q"
  have be: "binary_exponent x = (if 2 powi d \<le> x then d else d - 1)"
    unfolding binary_exponent_def pq d_def by (simp add: Let_def)
  show ?thesis
  proof (cases "2 powi d \<le> x")
    case True
    then show ?thesis unfolding be by simp
  next
    case False
    from bit_length_bounds[OF p] have bp: "1 \<le> bit_length p" "2 ^ nat (bit_length p - 1) \<le> p" by simp_all
    from bit_length_bounds[OF q] have bq: "1 \<le> bit_length q" "q < 2 ^ nat (bit_length q)" by simp_all
    have "d - 1 = (bit_length p - 1) - bit_length q" unfolding d_def by simp
    then have "(2::rat) powi (d - 1) = 2 powi (bit_length p - 1) / 2 powi (bit_length q)"
      by (simp only: power_int_diff[of "2::rat", simplified])
    also have "\<dots> = 2 ^ nat (bit_length p - 1) / 2 ^ nat (bit_length q)"
      using bp(1) bq(1) by (simp add: power_int_def)
    also have "\<dots> \<le> of_int p / of_int q"
    proof -
      have a: "(2::rat) ^ nat (bit_length p - 1) \<le> of_int p"
        using bp(2) by (metis of_int_le_iff of_int_numeral of_int_power)
      have b: "(of_int q :: rat) \<le> 2 ^ nat (bit_length q)"
        using bq(2) by (metis less_imp_le of_int_le_iff of_int_numeral of_int_power)
      have c: "(0::rat) < of_int q" using q by simp
      have d: "(0::rat) \<le> of_int p" using p by simp
      show ?thesis by (rule frac_le[OF d a c b])
    qed
    finally have "2 powi (d - 1) \<le> x" unfolding x .
    moreover have "binary_exponent x = d - 1" using be False by simp
    ultimately show ?thesis by simp
  qed
qed

lemma round_half_even_cases:
  "round_half_even q = \<lfloor>q\<rfloor> \<or> round_half_even q = \<lfloor>q\<rfloor> + 1"
  unfolding round_half_even_def Let_def by simp

lemma round_half_even_le: "of_int (round_half_even q) \<le> q + 1"
proof -
  have "(of_int (round_half_even q) :: rat) \<le> of_int \<lfloor>q\<rfloor> + 1"
    using round_half_even_cases[of q] by auto
  also have "\<dots> \<le> q + 1" by simp
  finally show ?thesis .
qed

lemma round_half_even_nonneg: "0 \<le> q \<Longrightarrow> 0 \<le> round_half_even q"
proof -
  assume "0 \<le> q"
  then have "0 \<le> \<lfloor>q\<rfloor>" by simp
  then show ?thesis using round_half_even_cases[of q] by auto
qed

lemma round_to_double_bounds:
  assumes "0 \<le> x"
  shows "0 \<le> round_to_double x" and "round_to_double x \<le> x * (1 + 1 / 2 ^ 52)"
proof -
  show "0 \<le> round_to_double x"
  proof (cases "x = 0")
    case True
    then show ?thesis by (simp add: round_to_double_def)
  next
    case False
    with assms have pos: "0 < x" by simp
    have "0 \<le> round_half_even (x / 2 powi (binary_exponent x - 52))"
      by (rule round_half_even_nonneg) (use pos in simp)
    then show ?thesis
      unfolding round_to_double_def Let_def using pos by simp
  qed
  show "round_to_double x \<le> x * (1 + 1 / 2 ^ 52)"
  proof (cases "x = 0")
    case True
    then show ?thesis by (simp add: round_to_double_def)
  next
    case False
    with assms have pos: "0 < x" by simp
    define ulp :: rat where "ulp = 2 powi (binary_exponent x - 52)"
    have ulp_pos: "0 < ulp" unfolding ulp_def by simp
    have "ulp = 2 powi binary_exponent x / 2 ^ 52"
      unfolding ulp_def by (simp add: power_int_diff)
    also have "\<dots> \<le> x / 2 ^ 52"
      using binary_exponent_le[OF pos] by (simp add: divide_right_mono)
    finally have ulp_le: "ulp \<le> x / 2 ^ 52" .
    have r: "round_to_double x = of_int (round_half_even (x / ulp)) * ulp"
      unfolding round_to_double_def Let_def ulp_def using pos by simp
    have "of_int (round_half_even (x / ulp)) * ulp \<le> (x / ulp + 1) * ulp"
      using round_half_even_le[of "x / ulp"] ulp_pos by (simp add: mult_right_mono)
    also have "\<dots> = x + ulp" using ulp_pos by (simp add: algebra_simps)
    also have "\<dots> \<le> x + x / 2 ^ 52" using ulp_le by simp
    also have "\<dots> = x * (1 + 1 / 2 ^ 52)" by (simp add: algebra_simps)
    finally show ?thesis unfolding r .
  qed
qed

lemma binary_exponent_less:
  assumes "0 < x"
  shows "x < 2 powi (binary_exponent x + 1)"
proof -
  obtain p q where pq: "quotient_of x = (p, q)" by (cases "quotient_of x")
  have q: "0 < q" using quotient_of_denom_pos[OF pq] .
  have x: "x = of_int p / of_int q" using quotient_of_div[OF pq] .
  have p: "0 < p" using assms q unfolding x by (simp add: zero_less_divide_iff)
  define d where "d = bit_length p - bit_length q"
  have be: "binary_exponent x = (if 2 powi d \<le> x then d else d - 1)"
    unfolding binary_exponent_def pq d_def by (simp add: Let_def)
  show ?thesis
  proof (cases "2 powi d \<le> x")
    case False
    then show ?thesis unfolding be by simp
  next
    case True
    from bit_length_bounds[OF p] have bp: "1 \<le> bit_length p" "p < 2 ^ nat (bit_length p)" by simp_all
    from bit_length_bounds[OF q] have bq: "1 \<le> bit_length q" "2 ^ nat (bit_length q - 1) \<le> q" by simp_all
    have a: "(of_int p :: rat) < 2 ^ nat (bit_length p)"
      using bp(2) by (metis of_int_less_iff of_int_numeral of_int_power)
    have b: "(2::rat) ^ nat (bit_length q - 1) \<le> of_int q"
      using bq(2) by (metis of_int_le_iff of_int_numeral of_int_power)
    have c: "(0::rat) < 2 ^ nat (bit_length q - 1)" by simp
    have d0: "(0::rat) \<le> of_int p" using p by simp
    have "of_int p / of_int q \<le> of_int p / (2::rat) ^ nat (bit_length q - 1)"
      by (rule divide_left_mono[OF b d0]) (use q in simp)
    also have "\<dots> < 2 ^ nat (bit_length p) / (2::rat) ^ nat (bit_length q - 1)"
      using a c by (simp add: divide_strict_right_mono)
    also have "\<dots> = 2 powi (bit_length p) / 2 powi (bit_length q - 1)"
      using bp(1) bq(1) by (simp add: power_int_def)
    also have "\<dots> = 2 powi (bit_length p - (bit_length q - 1))"
      by (simp only: power_int_diff[of "2::rat", simplified])
    also have "bit_length p - (bit_length q - 1) = d + 1" unfolding d_def by simp
    finally have "x < 2 powi (d + 1)" unfolding x .
    moreover have "binary_exponent x = d" using be True by simp
    ultimately show ?thesis by simp
  qed
qed

lemma round_half_even_nearest: "\<bar>of_int (round_half_even q) - q\<bar> \<le> 1/2"
proof -
  define f where "f = \<lfloor>q\<rfloor>"
  define r where "r = q - of_int f"
  have r: "0 \<le> r" "r < 1" unfolding r_def f_def by linarith+
  have q: "q = of_int f + r" unfolding r_def by simp
  have "round_half_even q = (if r < 1/2 then f else if 1/2 < r then f + 1 else if even f then f else f + 1)"
    unfolding round_half_even_def Let_def r_def f_def ..
  then show ?thesis unfolding q using r by (auto simp: abs_if)
qed

lemma round_to_double_nearest:
  assumes "0 < x"
  shows "\<bar>round_to_double x - x\<bar> \<le> 2 powi (binary_exponent x - 53)"
proof -
  define ulp :: rat where "ulp = 2 powi (binary_exponent x - 52)"
  have ulp_pos: "0 < ulp" unfolding ulp_def by simp
  have half: "2 powi (binary_exponent x - 53) = ulp / 2"
  proof -
    have "binary_exponent x - 53 = (binary_exponent x - 52) - 1" by simp
    then show ?thesis unfolding ulp_def
      by (simp only: power_int_diff[of "2::rat", simplified]) simp
  qed
  have r: "round_to_double x = of_int (round_half_even (x / ulp)) * ulp"
    unfolding round_to_double_def Let_def ulp_def using assms by simp
  have "round_to_double x - x = (of_int (round_half_even (x / ulp)) - x / ulp) * ulp"
    unfolding r using ulp_pos by (simp add: algebra_simps)
  then have "\<bar>round_to_double x - x\<bar> = \<bar>of_int (round_half_even (x / ulp)) - x / ulp\<bar> * ulp"
    using ulp_pos by (simp add: abs_mult)
  also have "\<dots> \<le> 1/2 * ulp"
    using round_half_even_nearest[of "x / ulp"] ulp_pos by (intro mult_right_mono) simp_all
  finally show ?thesis unfolding half by simp
qed

lemma round_to_double_significand:
  assumes "0 < x"
  shows "round_to_double x = of_int (round_half_even (x / 2 powi (binary_exponent x - 52))) * 2 powi (binary_exponent x - 52)"
    and "2 ^ 52 \<le> round_half_even (x / 2 powi (binary_exponent x - 52))"
    and "round_half_even (x / 2 powi (binary_exponent x - 52)) \<le> 2 ^ 53"
proof -
  define ulp :: rat where "ulp = 2 powi (binary_exponent x - 52)"
  define n where "n = round_half_even (x / ulp)"
  have ulp_pos: "0 < ulp" unfolding ulp_def by simp
  show "round_to_double x = of_int (round_half_even (x / 2 powi (binary_exponent x - 52))) * 2 powi (binary_exponent x - 52)"
    unfolding round_to_double_def Let_def using assms by simp
  have e1: "2 powi binary_exponent x = 2 ^ 52 * ulp"
  proof -
    have "ulp = 2 powi binary_exponent x / 2 powi 52"
      unfolding ulp_def by (simp only: power_int_diff[of "2::rat", simplified])
    then show ?thesis by simp
  qed
  have e2: "2 powi (binary_exponent x + 1) = 2 ^ 53 * ulp"
    unfolding power_int_add_1[of "2::rat", simplified] e1 by simp
  have lo: "2 ^ 52 \<le> x / ulp"
    using binary_exponent_le[OF assms] ulp_pos unfolding e1 by (simp add: pos_le_divide_eq)
  have hi: "x / ulp < 2 ^ 53"
    using binary_exponent_less[OF assms] ulp_pos unfolding e2 by (simp add: pos_divide_less_eq)
  have fl: "2 ^ 52 \<le> \<lfloor>x / ulp\<rfloor>" "\<lfloor>x / ulp\<rfloor> < 2 ^ 53"
    using lo hi by (simp_all add: le_floor_iff floor_less_iff)
  from round_half_even_cases[of "x / ulp"] fl
  show "2 ^ 52 \<le> round_half_even (x / 2 powi (binary_exponent x - 52))"
    and "round_half_even (x / 2 powi (binary_exponent x - 52)) \<le> 2 ^ 53"
    unfolding ulp_def by auto
qed

text \<open>
  Rounding is symmetric, it loses at most one part in \<open>2^52\<close>, and it returns an
  integer that lies within half a unit in the last place of its argument.
\<close>

lemma round_to_double_minus: "round_to_double (- x) = - round_to_double x"
  unfolding round_to_double_def Let_def by simp

lemma round_to_double_lower:
  assumes "0 \<le> x"
  shows "x * (1 - 1 / 2 ^ 52) \<le> round_to_double x"
proof (cases "x = 0")
  case True
  then show ?thesis by (simp add: round_to_double_def)
next
  case False
  with assms have pos: "0 < x" by simp
  have "(2::rat) powi (binary_exponent x - 53) = 2 powi binary_exponent x / 2 ^ 53"
    by (simp add: power_int_diff)
  also have "\<dots> \<le> x / 2 ^ 53"
    using binary_exponent_le[OF pos] by (simp add: divide_right_mono)
  finally have h: "2 powi (binary_exponent x - 53) \<le> x / 2 ^ 53" .
  from round_to_double_nearest[OF pos] h
  have "x - x / 2 ^ 53 \<le> round_to_double x" by linarith
  moreover have "x * (1 - 1 / 2 ^ 52) \<le> x - x / 2 ^ 53" using pos by (simp add: algebra_simps)
  ultimately show ?thesis by linarith
qed

lemma round_half_even_near:
  assumes "\<bar>q - of_int n\<bar> < 1/2"
  shows "round_half_even q = n"
proof -
  from round_half_even_nearest[of q] assms
  have "\<bar>(of_int (round_half_even q) :: rat) - of_int n\<bar> < 1" by linarith
  then have "\<bar>(of_int (round_half_even q - n) :: rat)\<bar> < of_int 1" by simp
  then have "\<bar>round_half_even q - n\<bar> < 1"
    by (simp only: of_int_abs[symmetric] of_int_less_iff)
  then show ?thesis by linarith
qed

lemma binary_exponent_below:
  assumes "0 < x" and "x < 2 ^ 53"
  shows "binary_exponent x \<le> 52"
proof (rule ccontr)
  assume "\<not> binary_exponent x \<le> 52"
  then have "53 \<le> binary_exponent x" by simp
  then have "(2::rat) powi 53 \<le> 2 powi binary_exponent x"
    by (intro power_int_increasing) simp_all
  with binary_exponent_le[OF assms(1)] assms(2) show False by simp
qed

lemma round_to_double_integer:
  assumes x: "0 < x" and below: "x < 2 ^ 53"
    and near: "\<bar>x - of_int y\<bar> * 2 < 2 powi (binary_exponent x - 52)"
  shows "round_to_double x = of_int y"
proof -
  define k where "k = nat (52 - binary_exponent x)"
  define ulp :: rat where "ulp = 2 powi (binary_exponent x - 52)"
  have e: "binary_exponent x \<le> 52" using x below by (rule binary_exponent_below)
  have "binary_exponent x - 52 = - int k" unfolding k_def using e by simp
  then have ulp: "ulp = 1 / 2 ^ k" unfolding ulp_def by (simp add: power_int_minus divide_simps)
  have ulp_pos: "0 < ulp" unfolding ulp_def by simp
  have "x / ulp - of_int (y * 2 ^ k) = (x - of_int y) / ulp" unfolding ulp by (simp add: algebra_simps)
  then have "\<bar>x / ulp - of_int (y * 2 ^ k)\<bar> = \<bar>x - of_int y\<bar> / ulp"
    using ulp_pos by simp
  also have "\<dots> < 1/2"
    using near ulp_pos unfolding ulp_def[symmetric] by (simp add: pos_divide_less_eq)
  finally have "round_half_even (x / ulp) = y * 2 ^ k" by (rule round_half_even_near)
  then have "round_to_double x = of_int (y * 2 ^ k) * ulp"
    unfolding round_to_double_def Let_def ulp_def using x by simp
  then show ?thesis unfolding ulp by simp
qed

text \<open>
  The literals \<^verbatim>\<open>0.9\<close> and \<^verbatim>\<open>0.1\<close>, the sum \<^verbatim>\<open>0.1 + 0.2\<close>, an integer and
  a negative quotient, with the significands of their binary64 values.
\<close>

lemma round_to_double_examples:
  "round_to_double (9/10) = 8106479329266893 / 2 ^ 53"
  "round_to_double (1/10) = 3602879701896397 / 2 ^ 55"
  "round_to_double (round_to_double (1/10) + round_to_double (2/10)) = 5404319552844596 / 2 ^ 54"
  "round_to_double 3 = 3"
  "round_to_double (- (1/3)) = - (6004799503160661 / 2 ^ 54)"
  by code_simp+

section \<open>Truncation\<close>

lemma truncateText_prefix: "prefix (truncateText t m) t"
  unfolding truncateText_def Let_def substring0_def
  by (auto simp: take_is_prefix intro: prefix_order.trans[OF take_is_prefix take_is_prefix])

text \<open>
  The text is cut at the target length or, after a space, before it; the branches of
  \<^verbatim>\<open>truncateText\<close> once the target length is known.
\<close>

lemma truncateText_length:
  "\<not> estimateTokens t \<le> m \<Longrightarrow>
   int (length (truncateText t m))
     \<le> max 0 \<lfloor>round_to_double
                 (round_to_double
                    (of_nat (length t) * round_to_double (of_int m / of_int (estimateTokens t)))
                  * round_to_double (9/10))\<rfloor>"
  unfolding truncateText_def Let_def substring0_def
  by auto

lemma truncateText_cut:
  assumes "\<not> estimateTokens t \<le> m"
    and "\<lfloor>round_to_double
            (round_to_double
               (of_nat (length t) * round_to_double (of_int m / of_int (estimateTokens t)))
             * round_to_double (9/10))\<rfloor> = T"
  shows "truncateText t m =
           (if lastIndexOf (substring0 t T) 0x20 > 0
            then substring0 (substring0 t T) (lastIndexOf (substring0 t T) 0x20)
            else substring0 t T)"
  using assms unfolding truncateText_def Let_def by simp

text \<open>
  Four roundings, each by a factor of at most \<open>1 + 2^-52\<close>, leave the target length
  below ten elevenths of \<open>length * maxTokens / estimatedTokens\<close>.
\<close>

lemma rounding_margin: "(9/10 :: rat) * ((1 + 1 / 2 ^ 52) * ((1 + 1 / 2 ^ 52) * ((1 + 1 / 2 ^ 52) * (1 + 1 / 2 ^ 52)))) \<le> 10/11"
  by simp

lemma targetLength_bound:
  fixes n :: nat and m e :: int
  assumes m: "0 \<le> m" and e: "0 < e"
  shows "of_int \<lfloor>round_to_double
                  (round_to_double (of_nat n * round_to_double (of_int m / of_int e))
                   * round_to_double (9/10))\<rfloor> * (11 * of_int e)
         \<le> (10 * of_nat n * of_int m :: rat)"
proof -
  define u :: rat where "u = 1 + 1 / 2 ^ 52"
  define q :: rat where "q = of_int m / of_int e"
  define ratio where "ratio = round_to_double q"
  define p1 where "p1 = round_to_double (of_nat n * ratio)"
  define c where "c = round_to_double (9/10)"
  define p2 where "p2 = round_to_double (p1 * c)"
  have u: "0 \<le> u" unfolding u_def by simp
  have q: "0 \<le> q" unfolding q_def using m e by simp
  have ratio: "0 \<le> ratio" "ratio \<le> q * u"
    unfolding ratio_def u_def using round_to_double_bounds[OF q] by simp_all
  have a: "0 \<le> of_nat n * ratio" using ratio(1) by simp
  have p1: "0 \<le> p1" "p1 \<le> of_nat n * ratio * u"
    unfolding p1_def u_def using round_to_double_bounds[OF a] by simp_all
  have "of_nat n * ratio * u \<le> of_nat n * (q * u) * u"
    using ratio(2) u by (intro mult_right_mono mult_left_mono) simp_all
  with p1(2) have p1': "p1 \<le> of_nat n * (q * u) * u" by linarith
  have c: "0 \<le> c" "c \<le> 9/10 * u"
    unfolding c_def u_def using round_to_double_bounds[of "9/10"] by simp_all
  have b: "0 \<le> p1 * c" using p1(1) c(1) by simp
  have p2: "p2 \<le> p1 * c * u"
    unfolding p2_def u_def using round_to_double_bounds(2)[OF b] by simp
  have "p1 * c \<le> (of_nat n * (q * u) * u) * (9/10 * u)"
    using p1' c p1(1) by (intro mult_mono) simp_all
  then have "p1 * c * u \<le> (of_nat n * (q * u) * u) * (9/10 * u) * u"
    using u by (rule mult_right_mono)
  with p2 have "p2 \<le> (of_nat n * (q * u) * u) * (9/10 * u) * u" by linarith
  also have "\<dots> = (of_nat n * q) * (9/10 * (u * (u * (u * u))))"
    by (simp add: algebra_simps)
  also have "\<dots> \<le> (of_nat n * q) * (10/11)"
    using q rounding_margin unfolding u_def by (intro mult_left_mono) simp_all
  finally have p2': "p2 \<le> of_nat n * q * (10/11)" .
  have "of_int \<lfloor>p2\<rfloor> \<le> p2" by simp
  with p2' have "of_int \<lfloor>p2\<rfloor> \<le> of_nat n * q * (10/11)" by linarith
  then have "of_int \<lfloor>p2\<rfloor> * (11 * of_int e) \<le> of_nat n * q * (10/11) * (11 * of_int e)"
    using e by (intro mult_right_mono) simp_all
  also have "\<dots> = 10 * of_nat n * of_int m"
    unfolding q_def using e by simp
  finally show ?thesis unfolding p2_def c_def p1_def ratio_def q_def .
qed

lemma truncateText_target:
  assumes m: "0 < m" and over: "\<not> estimateTokens t \<le> m"
  shows "11 * estimateTokens t * int (length (truncateText t m)) \<le> 10 * int (length t) * m"
proof -
  define e where "e = estimateTokens t"
  define T where "T = \<lfloor>round_to_double
                 (round_to_double
                    (of_nat (length t) * round_to_double (of_int m / of_int e))
                  * round_to_double (9/10))\<rfloor>"
  have e: "0 < e" using m over unfolding e_def by linarith
  have "(of_int T :: rat) * (11 * of_int e) \<le> 10 * of_nat (length t) * of_int m"
    unfolding T_def using m e by (intro targetLength_bound) simp_all
  then have "(of_int (T * (11 * e)) :: rat) \<le> of_int (10 * int (length t) * m)"
    by simp
  then have T: "T * (11 * e) \<le> 10 * int (length t) * m"
    by (simp only: of_int_le_iff)
  have len: "int (length (truncateText t m)) \<le> max 0 T"
    unfolding T_def e_def using truncateText_length[OF over] .
  have rhs: "0 \<le> 10 * int (length t) * m" using m by simp
  show ?thesis
  proof (cases "0 \<le> T")
    case True
    with len have "int (length (truncateText t m)) \<le> T" by simp
    then have "int (length (truncateText t m)) * (11 * e) \<le> T * (11 * e)"
      using e by (intro mult_right_mono) simp_all
    with T show ?thesis unfolding e_def by (simp add: algebra_simps)
  next
    case False
    with len have "length (truncateText t m) = 0" by simp
    with rhs show ?thesis by simp
  qed
qed

lemma estimateTokens_ceiling_weight: "estimateTokens t = \<lceil>token_weight t\<rceil>"
  unfolding estimateTokens_def token_weight_def Let_def ..

lemma token_weight_le_estimate: "token_weight t \<le> of_int (estimateTokens t)"
  unfolding estimateTokens_ceiling_weight by simp

lemma truncateText_within_budget_if:
  assumes m: "0 < m"
    and d: "10 * token_weight (truncateText t m) * of_nat (length t)
              \<le> 11 * token_weight t * of_nat (length (truncateText t m))"
  shows "estimateTokens (truncateText t m) \<le> m"
proof (cases "estimateTokens t \<le> m")
  case True
  then show ?thesis by (simp add: truncateText_def)
next
  case False
  define r where "r = truncateText t m"
  define n :: rat where "n = of_nat (length t)"
  define e :: rat where "e = of_int (estimateTokens t)"
  have "t \<noteq> []" using False m by (auto simp: estimateTokens_Nil)
  then have n: "0 < n" unfolding n_def by simp
  have "of_int (11 * estimateTokens t * int (length r)) \<le> (of_int (10 * int (length t) * m) :: rat)"
    unfolding r_def using truncateText_target[OF m False] by (simp only: of_int_le_iff)
  then have tg: "11 * e * of_nat (length r) \<le> 10 * n * of_int m"
    unfolding e_def n_def by simp
  have "11 * token_weight t * of_nat (length r) \<le> 11 * e * of_nat (length r)"
    unfolding e_def using token_weight_le_estimate[of t] by (intro mult_right_mono mult_left_mono) simp_all
  with d tg have "10 * token_weight r * n \<le> 10 * n * of_int m"
    unfolding r_def n_def by linarith
  then have "n * token_weight r \<le> n * of_int m" by (simp add: mult.commute)
  then have "token_weight r \<le> of_int m" using n by simp
  then show ?thesis unfolding estimateTokens_ceiling_weight r_def by (simp add: ceiling_le)
qed

lemma filter_take_all: "filter P t = t \<Longrightarrow> filter P (take n t) = take n t"
  by (metis filter_id_conv in_set_takeD)

lemma filter_take_none: "filter P t = [] \<Longrightarrow> filter P (take n t) = []"
  by (metis filter_empty_conv in_set_takeD)

lemma single_script_density:
  assumes u: "filter isHangul t = t \<or> filter isHangul t = []" and p: "prefix r t"
  shows "10 * token_weight r * of_nat (length t) \<le> 11 * token_weight t * of_nat (length r)"
proof -
  obtain k where r: "r = take k t"
    using p unfolding prefix_def by (metis append_eq_conv_conj)
  from u show ?thesis
  proof
    assume a: "filter isHangul t = t"
    then have fr: "filter isHangul r = r" unfolding r by (rule filter_take_all)
    show ?thesis unfolding token_weight_def Let_def a fr by simp
  next
    assume a: "filter isHangul t = []"
    then have fr: "filter isHangul r = []" unfolding r by (rule filter_take_none)
    show ?thesis unfolding token_weight_def Let_def a fr by simp
  qed
qed

lemma truncateText_six_times:
  assumes m: "0 < m"
  shows "estimateTokens (truncateText t m) \<le> 6 * m"
proof (cases "estimateTokens t \<le> m")
  case True
  then show ?thesis using m by (simp add: truncateText_def)
next
  case False
  define r where "r = truncateText t m"
  define e where "e = estimateTokens t"
  have e: "0 < e" using False m unfolding e_def by linarith
  have k: "length (filter isHangul t) \<le> length t" by simp
  have "int (length t) \<le> 4 * e" unfolding e_def estimateTokens_int using k by linarith
  then have "10 * int (length t) * m \<le> 10 * (4 * e) * m"
    using m by (intro mult_right_mono mult_left_mono) simp_all
  with truncateText_target[OF m False]
  have "e * (11 * int (length r)) \<le> e * (40 * m)"
    unfolding r_def e_def by (simp add: algebra_simps)
  then have len: "11 * int (length r) \<le> 40 * m" using e by simp
  have kr: "length (filter isHangul r) \<le> length r" by simp
  show ?thesis unfolding r_def[symmetric] estimateTokens_int using kr len m by linarith
qed

text \<open>Texts built by repetition.\<close>

lemma length_concat_replicate: "length (concat (replicate k xs)) = k * length xs"
  by (induction k) simp_all

lemma filter_concat_replicate:
  "filter P (concat (replicate k xs)) = concat (replicate k (filter P xs))"
  by (induction k) simp_all

lemma take_concat_replicate:
  assumes "i \<le> j * length xs" and "j \<le> k"
  shows "take i (concat (replicate k xs)) = take i (concat (replicate j xs))"
proof -
  have "replicate k xs = replicate j xs @ replicate (k - j) xs"
    using assms(2) by (simp add: replicate_add[symmetric])
  then have "concat (replicate k xs) = concat (replicate j xs) @ concat (replicate (k - j) xs)"
    by simp
  then show ?thesis using assms(1) by (simp add: length_concat_replicate)
qed

lemma estimateTokens_replicate:
  "\<not> isHangul c \<Longrightarrow> estimateTokens (replicate n c) = (int n + 3) div 4"
  by (simp add: estimateTokens_int filter_replicate)

lemma lastIndexOf_from_absent: "c \<notin> set xs \<Longrightarrow> lastIndexOf_from xs c i found = found"
  by (induction xs arbitrary: i) simp_all

lemma truncateText_replicate:
  assumes c: "c \<noteq> 0x20"
    and over: "\<not> estimateTokens (replicate n c) \<le> m"
    and T: "\<lfloor>round_to_double
               (round_to_double
                  (of_nat n * round_to_double (of_int m / of_int (estimateTokens (replicate n c))))
                * round_to_double (9/10))\<rfloor> = int k"
  shows "truncateText (replicate n c) m = replicate (min k n) c"
proof -
  have T': "\<lfloor>round_to_double
               (round_to_double
                  (of_nat (length (replicate n c))
                   * round_to_double (of_int m / of_int (estimateTokens (replicate n c))))
                * round_to_double (9/10))\<rfloor> = int k"
    using T by simp
  have s: "substring0 (replicate n c) (int k) = replicate (min k n) c"
    unfolding substring0_def by simp
  have "0x20 \<notin> set (replicate (min k n) c)" using c by auto
  then have "lastIndexOf (replicate (min k n) c) 0x20 = - 1"
    unfolding lastIndexOf_def by (rule lastIndexOf_from_absent)
  then show ?thesis unfolding truncateText_cut[OF over T'] s by simp
qed

text \<open>
  The text of the test suite, five Hangul syllables and a space repeated 1000 times, with
  the budget 100 of the test: the estimate is 7750, the target length 69, and the text is
  cut before the last space of the first 69 code units, at 65.
\<close>

lemma truncateText_greeting:
  assumes t: "t = concat (replicate 1000 [0xC548, 0xB155, 0xD558, 0xC138, 0xC694, 0x20])"
  shows "estimateTokens t = 7750"
    and "length (truncateText t 100) = 65"
    and "estimateTokens (truncateText t 100) = 85"
    and "10 * token_weight (truncateText t 100) * of_nat (length t)
           \<le> 11 * token_weight t * of_nat (length (truncateText t 100))"
proof -
  have len: "length t = 6000" unfolding t length_concat_replicate by simp
  have han: "length (filter isHangul t) = 5000"
    unfolding t filter_concat_replicate length_concat_replicate by (simp add: isHangul_def)
  show est: "estimateTokens t = 7750" unfolding estimateTokens_int len han by simp
  have "\<lfloor>round_to_double
            (round_to_double (6000 * round_to_double (100 / 7750)) * round_to_double (9/10))\<rfloor> = 69"
    by code_simp
  then have T: "\<lfloor>round_to_double
            (round_to_double
               (of_nat (length t) * round_to_double (of_int 100 / of_int (estimateTokens t)))
             * round_to_double (9/10))\<rfloor> = 69"
    unfolding len est by simp
  have "take 69 t = take 69 (concat (replicate 12 [0xC548, 0xB155, 0xD558, 0xC138, 0xC694, 0x20]))"
    unfolding t by (rule take_concat_replicate) simp_all
  also have "\<dots> = concat (replicate 11 [0xC548, 0xB155, 0xD558, 0xC138, 0xC694, 0x20]) @ [0xC548, 0xB155, 0xD558]"
    by code_simp
  finally have tk: "take 69 t = concat (replicate 11 [0xC548, 0xB155, 0xD558, 0xC138, 0xC694, 0x20]) @ [0xC548, 0xB155, 0xD558]" .
  have "take 65 t = take 65 (concat (replicate 11 [0xC548, 0xB155, 0xD558, 0xC138, 0xC694, 0x20]))"
    unfolding t by (rule take_concat_replicate) simp_all
  also have "\<dots> = concat (replicate 10 [0xC548, 0xB155, 0xD558, 0xC138, 0xC694, 0x20]) @ [0xC548, 0xB155, 0xD558, 0xC138, 0xC694]"
    by code_simp
  finally have tk': "take 65 t = concat (replicate 10 [0xC548, 0xB155, 0xD558, 0xC138, 0xC694, 0x20]) @ [0xC548, 0xB155, 0xD558, 0xC138, 0xC694]" .
  have "lastIndexOf (concat (replicate 11 [0xC548, 0xB155, 0xD558, 0xC138, 0xC694, 0x20]) @ [0xC548, 0xB155, 0xD558]) 0x20 = 65"
    by code_simp
  then have i: "lastIndexOf (substring0 t 69) 0x20 = 65"
    unfolding substring0_def using tk by simp
  have over: "\<not> estimateTokens t \<le> 100" unfolding est by simp
  have "truncateText t 100 = substring0 (substring0 t 69) 65"
    unfolding truncateText_cut[OF over T] i by simp
  then have r: "truncateText t 100 = take 65 t" unfolding substring0_def by simp
  show lr: "length (truncateText t 100) = 65" unfolding r using len by simp
  have "length (filter isHangul (concat (replicate 10 [0xC548, 0xB155, 0xD558, 0xC138, 0xC694, 0x20]) @ [0xC548, 0xB155, 0xD558, 0xC138, 0xC694])) = 55"
    by code_simp
  then have hr: "length (filter isHangul (truncateText t 100)) = 55"
    unfolding r tk' .
  show "estimateTokens (truncateText t 100) = 85" unfolding estimateTokens_int lr hr by simp
  show "10 * token_weight (truncateText t 100) * of_nat (length t)
           \<le> 11 * token_weight t * of_nat (length (truncateText t 100))"
    unfolding token_weight_def Let_def len han lr hr by simp
qed

text \<open>
  C5, as amended. For every text and every positive budget the truncated text is a prefix
  of the text and its estimate is at most six times the budget; when the estimate of the
  text is over the budget, the truncated text has at most ten elevenths of
  \<open>length * maxTokens / estimate\<close> code units. The estimate of the truncated text is
  within the budget whenever the truncated text is at most one tenth denser than the whole
  text, that is, whenever its weight per code unit is at most 1.1 times that of the whole
  text; in particular for every text of one script (only Hangul syllables, or none).
\<close>

theorem truncateText_within_budget_unless_denser:
  fixes t :: jsstring and maxTokens :: int
  assumes m: "0 < maxTokens"
  shows "prefix (truncateText t maxTokens) t
         \<and> (maxTokens < estimateTokens t
             \<longrightarrow> 11 * estimateTokens t * int (length (truncateText t maxTokens))
                   \<le> 10 * int (length t) * maxTokens)
         \<and> estimateTokens (truncateText t maxTokens) \<le> 6 * maxTokens
         \<and> (10 * token_weight (truncateText t maxTokens) * of_nat (length t)
               \<le> 11 * token_weight t * of_nat (length (truncateText t maxTokens))
             \<longrightarrow> estimateTokens (truncateText t maxTokens) \<le> maxTokens)
         \<and> (filter isHangul t = t \<or> filter isHangul t = []
             \<longrightarrow> estimateTokens (truncateText t maxTokens) \<le> maxTokens)"
proof -
  have a: "prefix (truncateText t maxTokens) t" by (rule truncateText_prefix)
  have b: "estimateTokens (truncateText t maxTokens) \<le> 6 * maxTokens"
    using m by (rule truncateText_six_times)
  have c: "10 * token_weight (truncateText t maxTokens) * of_nat (length t)
               \<le> 11 * token_weight t * of_nat (length (truncateText t maxTokens))
             \<longrightarrow> estimateTokens (truncateText t maxTokens) \<le> maxTokens"
    using truncateText_within_budget_if[OF m] by blast
  have d: "filter isHangul t = t \<or> filter isHangul t = []
             \<longrightarrow> estimateTokens (truncateText t maxTokens) \<le> maxTokens"
    using truncateText_within_budget_if[OF m single_script_density[OF _ a]] by blast
  have u: "maxTokens < estimateTokens t
             \<longrightarrow> 11 * estimateTokens t * int (length (truncateText t maxTokens))
                   \<le> 10 * int (length t) * maxTokens"
    using truncateText_target[OF m, of t] by simp
  from a u b c d show ?thesis by blast
qed

text \<open>
  The text and the budget of the test suite, on which the truncated text is denser than
  the whole by a little over one hundredth, and a text of 24 Hangul syllables with the
  budget 25, where the product \<^verbatim>\<open>24 * (25 / 36) * 0.9\<close> is rounded to a double just
  below 15 and 14 syllables are kept.
\<close>

theorem truncateText_within_budget_unless_denser_witness:
  "(0::int) < 100
   \<and> estimateTokens (concat (replicate 1000 [0xC548, 0xB155, 0xD558, 0xC138, 0xC694, 0x20])) = 7750
   \<and> 100 < estimateTokens (concat (replicate 1000 [0xC548, 0xB155, 0xD558, 0xC138, 0xC694, 0x20]))
   \<and> 11 * estimateTokens (concat (replicate 1000 [0xC548, 0xB155, 0xD558, 0xC138, 0xC694, 0x20])) * int (length (truncateText (concat (replicate 1000 [0xC548, 0xB155, 0xD558, 0xC138, 0xC694, 0x20])) 100))
         \<le> 10 * int (length (concat (replicate 1000 [0xC548, 0xB155, 0xD558, 0xC138, 0xC694, 0x20]) :: jsstring)) * 100
   \<and> length (truncateText (concat (replicate 1000 [0xC548, 0xB155, 0xD558, 0xC138, 0xC694, 0x20])) 100) = 65
   \<and> 10 * token_weight (truncateText (concat (replicate 1000 [0xC548, 0xB155, 0xD558, 0xC138, 0xC694, 0x20])) 100) * of_nat (length (concat (replicate 1000 [0xC548, 0xB155, 0xD558, 0xC138, 0xC694, 0x20]) :: jsstring))
         \<le> 11 * token_weight (concat (replicate 1000 [0xC548, 0xB155, 0xD558, 0xC138, 0xC694, 0x20])) * of_nat (length (truncateText (concat (replicate 1000 [0xC548, 0xB155, 0xD558, 0xC138, 0xC694, 0x20])) 100))
   \<and> estimateTokens (truncateText (concat (replicate 1000 [0xC548, 0xB155, 0xD558, 0xC138, 0xC694, 0x20])) 100) = 85
   \<and> estimateTokens (truncateText (concat (replicate 1000 [0xC548, 0xB155, 0xD558, 0xC138, 0xC694, 0x20])) 100) \<le> 100
   \<and> (0::int) < 25
   \<and> filter isHangul (replicate 24 0xAC00) = replicate 24 0xAC00
   \<and> truncateText (replicate 24 0xAC00) 25 = replicate 14 0xAC00
   \<and> estimateTokens (truncateText (replicate 24 0xAC00) 25) \<le> 25"
proof -
  note g = truncateText_greeting[OF refl]
  have pos: "(0::int) < 100" by simp
  from truncateText_within_budget_unless_denser[OF pos, of "concat (replicate 1000 [0xC548, 0xB155, 0xD558, 0xC138, 0xC694, 0x20])"] g(4)
  have le: "estimateTokens (truncateText (concat (replicate 1000 [0xC548, 0xB155, 0xD558, 0xC138, 0xC694, 0x20])) 100) \<le> 100" by blast
  have ov: "100 < estimateTokens (concat (replicate 1000 [0xC548, 0xB155, 0xD558, 0xC138, 0xC694, 0x20]))"
    unfolding g(1) by simp
  from truncateText_within_budget_unless_denser[OF pos, of "concat (replicate 1000 [0xC548, 0xB155, 0xD558, 0xC138, 0xC694, 0x20])"] ov
  have tg: "11 * estimateTokens (concat (replicate 1000 [0xC548, 0xB155, 0xD558, 0xC138, 0xC694, 0x20])) * int (length (truncateText (concat (replicate 1000 [0xC548, 0xB155, 0xD558, 0xC138, 0xC694, 0x20])) 100))
         \<le> 10 * int (length (concat (replicate 1000 [0xC548, 0xB155, 0xD558, 0xC138, 0xC694, 0x20]) :: jsstring)) * 100" by blast
  have pos': "(0::int) < 25" by simp
  have h: "filter isHangul (replicate 24 0xAC00) = replicate 24 0xAC00"
    by (simp add: filter_replicate isHangul_def)
  have v: "truncateText (replicate 24 0xAC00) 25 = replicate 14 0xAC00"
    by code_simp
  from truncateText_within_budget_unless_denser[OF pos', of "replicate 24 0xAC00"] h
  have le': "estimateTokens (truncateText (replicate 24 0xAC00) 25) \<le> 25" by blast
  show ?thesis by (intro conjI pos g(1) ov tg g(2) g(4) g(3) le pos' h v le')
qed

text \<open>
  The claim as stated fails on a text of two scripts: four Hangul syllables followed by
  forty Latin letters, with a budget of 4, are cut to nine code units whose estimate is 8.
\<close>

theorem truncateText_exceeds_budget_counterexample:
  "\<not> estimateTokens
        (truncateText
           ([0xAC00, 0xAC00, 0xAC00, 0xAC00] @ js ''aaaaaaaaaaaaaaaaaaaaaaaaaaaaaaaaaaaaaaaa'') 4)
      \<le> 4"
  by code_simp

section \<open>Error classification\<close>

text \<open>
  C3. The kind \<^verbatim>\<open>parseGeminiError\<close> returns is the kind of the first of the eight
  ordered rules that matches. In particular rule 5 comes before rule 6: an error whose
  message contains "token", "limit" and "model" is never classified \<^verbatim>\<open>MODEL_NOT_FOUND\<close>,
  and it is classified \<^verbatim>\<open>TOKEN_LIMIT_EXCEEDED\<close> unless one of the rules 1 to 4 matches
  it first.
\<close>

theorem parseGeminiError_ordered_rules:
  "type (parseGeminiError e) = classify_spec e
   \<and> (message_includes e ''token'' \<and> message_includes e ''limit'' \<and> message_includes e ''model''
        \<longrightarrow> type (parseGeminiError e) \<noteq> MODEL_NOT_FOUND
            \<and> (\<not> (message_includes e ''API key'' \<or> status e = Some 401)
                 \<and> \<not> (status e = Some 429 \<or> message_includes e ''quota'')
                 \<and> \<not> (name e = Some (js ''TimeoutError'') \<or> code e = Some (js ''TIMEOUT''))
                 \<and> \<not> (message_includes e ''content'' \<and> message_includes e ''filter'')
                \<longrightarrow> type (parseGeminiError e) = TOKEN_LIMIT_EXCEEDED))"
  unfolding parseGeminiError_def classify_spec_def spec_rules_def
  by simp

theorem parseGeminiError_ordered_rules_witness:
  "message_includes (new_Error (js ''model token limit'')) ''token''
   \<and> message_includes (new_Error (js ''model token limit'')) ''limit''
   \<and> message_includes (new_Error (js ''model token limit'')) ''model''
   \<and> classify_spec (new_Error (js ''model token limit'')) = TOKEN_LIMIT_EXCEEDED
   \<and> type (parseGeminiError (new_Error (js ''model token limit''))) = TOKEN_LIMIT_EXCEEDED"
proof -
  let ?e = "new_Error (js ''model token limit'')"
  have a: "message_includes ?e ''token''"
    and b: "message_includes ?e ''limit''"
    and c: "message_includes ?e ''model''"
    by code_simp+
  have d: "\<not> (message_includes ?e ''API key'' \<or> status ?e = Some 401)"
    and e: "\<not> (status ?e = Some 429 \<or> message_includes ?e ''quota'')"
    and f: "\<not> (name ?e = Some (js ''TimeoutError'') \<or> code ?e = Some (js ''TIMEOUT''))"
    and g: "\<not> (message_includes ?e ''content'' \<and> message_includes ?e ''filter'')"
    by code_simp+
  note rules = parseGeminiError_ordered_rules[of ?e]
  from rules have t1: "type (parseGeminiError ?e) = classify_spec ?e"
    by (rule conjunct1)
  from rules a b c d e f g have t2: "type (parseGeminiError ?e) = TOKEN_LIMIT_EXCEEDED"
    by blast
  from t1 t2 have t3: "classify_spec ?e = TOKEN_LIMIT_EXCEEDED"
    by (rule subst)
  from a b c t3 t2 show ?thesis by blast
qed

section \<open>The rejection of the timer\<close>

lemma js_includes_subset: "js_includes s sub \<Longrightarrow> set sub \<subseteq> set s"
proof (induction s)
  case Nil
  then show ?case by simp
next
  case (Cons c cs)
  then show ?case
    using set_mono_prefix[of sub "c # cs"] by auto
qed

lemma set_show_nat: "set (show_nat n) \<subseteq> {0x30..0x39}"
proof (induction n rule: show_nat.induct)
  case (1 n)
  show ?case
  proof (cases "n < 10")
    case True
    then show ?thesis by (subst show_nat.simps) simp
  next
    case False
    have "n mod 10 < 10" by simp
    then have "0x30 + int (n mod 10) \<in> {0x30..0x39}" by simp
    with 1 False show ?thesis by (subst show_nat.simps) simp
  qed
qed

lemma set_show_int: "set (show_int i) \<subseteq> insert 0x2D {0x30..0x39}"
  unfolding show_int_def using set_show_nat by auto

lemma timeout_message_excludes:
  assumes "c \<in> set sub" and "c \<notin> set (js ''Operation timed out after ms'')"
    and "c \<noteq> 0x2D" and "c < 0x30 \<or> 0x39 < c"
  shows "\<not> js_includes (js ''Operation timed out after '' @ show_int timeoutMs @ js ''ms'') sub"
proof
  assume "js_includes (js ''Operation timed out after '' @ show_int timeoutMs @ js ''ms'') sub"
  then have "set sub \<subseteq> set (js ''Operation timed out after '' @ show_int timeoutMs @ js ''ms'')"
    by (rule js_includes_subset)
  with assms(1) have "c \<in> set (js ''Operation timed out after '' @ show_int timeoutMs @ js ''ms'')"
    by blast
  then have "c \<in> set (js ''Operation timed out after ms'') \<or> c \<in> set (show_int timeoutMs)"
    by auto
  with assms(2) have "c \<in> set (show_int timeoutMs)" by blast
  with set_show_int[of timeoutMs] assms(3,4) show False by auto
qed

lemma message_timeout_error:
  "raw_error.message (timeout_error timeoutMs)
     = Some (js ''Operation timed out after '' @ show_int timeoutMs @ js ''ms'')"
  unfolding timeout_error_def new_Error_def by simp

lemma message_includes_Some:
  "raw_error.message e = Some m \<Longrightarrow> message_includes e s = js_includes m (js s)"
  unfolding message_includes_def by simp

lemma timeout_error_API_key: "\<not> message_includes (timeout_error timeoutMs) ''API key''"
  unfolding message_includes_Some[OF message_timeout_error]
  by (rule timeout_message_excludes[where c = "0x41"]) simp_all

lemma timeout_error_quota: "\<not> message_includes (timeout_error timeoutMs) ''quota''"
  unfolding message_includes_Some[OF message_timeout_error]
  by (rule timeout_message_excludes[where c = "0x71"]) simp_all

lemma timeout_error_content: "\<not> message_includes (timeout_error timeoutMs) ''content''"
  unfolding message_includes_Some[OF message_timeout_error]
  by (rule timeout_message_excludes[where c = "0x63"]) simp_all

lemma timeout_error_token: "\<not> message_includes (timeout_error timeoutMs) ''token''"
  unfolding message_includes_Some[OF message_timeout_error]
  by (rule timeout_message_excludes[where c = "0x6B"]) simp_all

lemma timeout_error_model: "\<not> message_includes (timeout_error timeoutMs) ''model''"
  unfolding message_includes_Some[OF message_timeout_error]
  by (rule timeout_message_excludes[where c = "0x6C"]) simp_all

lemmas timeout_error_matches_no_rule =
  timeout_error_API_key timeout_error_quota timeout_error_content timeout_error_token
  timeout_error_model

lemma timeout_error_fields:
  "status (timeout_error timeoutMs) = None"
  "name (timeout_error timeoutMs) = Some (js ''Error'')"
  "code (timeout_error timeoutMs) = None"
  unfolding timeout_error_def new_Error_def by simp_all

lemma parseGeminiError_timeout_error:
  "type (parseGeminiError (timeout_error timeoutMs)) = UNKNOWN"
  unfolding parseGeminiError_def
  by (simp add: timeout_error_matches_no_rule timeout_error_fields)

section \<open>Retry\<close>

lemma withRetry_no_attempt:
  assumes "maxRetries < 1"
  shows "withRetry operation maxRetries backoffMs s
         = \<lparr>outcome = Inl None, final_state = s, attempts = 0, sleeps = []\<rparr>"
  unfolding withRetry_def using assms by (subst withRetry_loop.simps) simp

lemma withRetry_loop_attempts_mono:
  "n \<le> attempts (withRetry_loop operation maxRetries backoffMs attempt lastError s n slept)"
proof (induction operation maxRetries backoffMs attempt lastError s n slept
       rule: withRetry_loop.induct)
  case (1 operation maxRetries backoffMs attempt lastError s n slept)
  show ?case
  proof (cases "attempt \<le> maxRetries")
    case False
    then show ?thesis by (subst withRetry_loop.simps) simp
  next
    case True
    show ?thesis
    proof (cases "operation s")
      case (Pair r s')
      show ?thesis
      proof (cases r)
        case (Inr v)
        with True Pair show ?thesis by (subst withRetry_loop.simps) simp
      next
        case (Inl error)
        show ?thesis
        proof (cases "isNonRetryableError error")
          case True
          with \<open>attempt \<le> maxRetries\<close> Pair Inl show ?thesis
            by (subst withRetry_loop.simps) simp
        next
          case False
          from "1.IH"[OF \<open>attempt \<le> maxRetries\<close> Pair[symmetric] Inl False]
          have "n + 1 \<le> attempts (withRetry_loop operation maxRetries backoffMs (attempt + 1)
                   (Some error) s' (n + 1)
                   (if attempt < maxRetries then slept @ [backoffMs * attempt] else slept))" .
          with \<open>attempt \<le> maxRetries\<close> Pair Inl False show ?thesis
            by (subst withRetry_loop.simps) simp
        qed
      qed
    qed
  qed
qed

lemma withRetry_at_least_one_attempt:
  assumes "1 \<le> maxRetries"
  shows "1 \<le> attempts (withRetry operation maxRetries backoffMs s)"
proof (cases "operation s")
  case (Pair r s')
  show ?thesis
  proof (cases r)
    case (Inr v)
    with assms Pair show ?thesis
      unfolding withRetry_def by (subst withRetry_loop.simps) simp
  next
    case (Inl error)
    show ?thesis
    proof (cases "isNonRetryableError error")
      case True
      with assms Pair Inl show ?thesis
        unfolding withRetry_def by (subst withRetry_loop.simps) simp
    next
      case False
      have "0 + 1 \<le> attempts (withRetry_loop operation maxRetries backoffMs (1 + 1) (Some error) s' (0 + 1)
               (if 1 < maxRetries then [] @ [backoffMs * 1] else []))"
        by (rule withRetry_loop_attempts_mono)
      with assms Pair Inl False show ?thesis
        unfolding withRetry_def by (subst withRetry_loop.simps) simp
    qed
  qed
qed

lemma withRetry_non_retryable_once:
  assumes "1 \<le> maxRetries" and "operation s = (Inl error, s')" and "isNonRetryableError error"
  shows "withRetry operation maxRetries backoffMs s
         = \<lparr>outcome = Inl (Some error), final_state = s', attempts = 1, sleeps = []\<rparr>"
  unfolding withRetry_def using assms by (subst withRetry_loop.simps) simp

lemma withRetry_third_attempt_succeeds:
  assumes "operation s0 = (Inl e1, s1)" and "\<not> isNonRetryableError e1"
    and "operation s1 = (Inl e2, s2)" and "\<not> isNonRetryableError e2"
    and "operation s2 = (Inr v, s3)"
  shows "withRetry operation 3 backoffMs s0
         = \<lparr>outcome = Inr v, final_state = s3, attempts = 3,
            sleeps = [backoffMs * 1, backoffMs * 2]\<rparr>"
  unfolding withRetry_def using assms
  by (simp add: withRetry_loop.simps)

lemma withRetry_loop_invariant:
  "P s \<Longrightarrow> (\<forall>s. P s \<longrightarrow> P (snd (operation s))) \<Longrightarrow>
   P (final_state (withRetry_loop operation maxRetries backoffMs attempt lastError s n slept))"
proof (induction operation maxRetries backoffMs attempt lastError s n slept
       rule: withRetry_loop.induct)
  case (1 operation maxRetries backoffMs attempt lastError s n slept)
  show ?case
  proof (cases "attempt \<le> maxRetries")
    case False
    with "1.prems" show ?thesis by (subst withRetry_loop.simps) simp
  next
    case True
    show ?thesis
    proof (cases "operation s")
      case (Pair r s')
      have s': "P s'" using "1.prems" Pair by (metis snd_conv)
      show ?thesis
      proof (cases r)
        case (Inr v)
        with True Pair s' show ?thesis by (subst withRetry_loop.simps) simp
      next
        case (Inl error)
        show ?thesis
        proof (cases "isNonRetryableError error")
          case True
          with \<open>attempt \<le> maxRetries\<close> Pair Inl s' show ?thesis
            by (subst withRetry_loop.simps) simp
        next
          case False
          from "1.IH"[OF \<open>attempt \<le> maxRetries\<close> Pair[symmetric] Inl False s' "1.prems"(2)]
          show ?thesis
            using \<open>attempt \<le> maxRetries\<close> Pair Inl False
            by (subst withRetry_loop.simps) simp
        qed
      qed
    qed
  qed
qed

lemma withRetry_loop_outcome_defined:
  "attempt \<le> maxRetries \<or> lastError \<noteq> None \<Longrightarrow>
   outcome (withRetry_loop operation maxRetries backoffMs attempt lastError s n slept) \<noteq> Inl None"
proof (induction operation maxRetries backoffMs attempt lastError s n slept
       rule: withRetry_loop.induct)
  case (1 operation maxRetries backoffMs attempt lastError s n slept)
  show ?case
  proof (cases "attempt \<le> maxRetries")
    case False
    with "1.prems" show ?thesis by (subst withRetry_loop.simps) simp
  next
    case True
    show ?thesis
    proof (cases "operation s")
      case (Pair r s')
      show ?thesis
      proof (cases r)
        case (Inr v)
        with True Pair show ?thesis by (subst withRetry_loop.simps) simp
      next
        case (Inl error)
        show ?thesis
        proof (cases "isNonRetryableError error")
          case True
          with \<open>attempt \<le> maxRetries\<close> Pair Inl show ?thesis
            by (subst withRetry_loop.simps) simp
        next
          case False
          have "outcome (withRetry_loop operation maxRetries backoffMs (attempt + 1) (Some error) s'
                   (n + 1) (if attempt < maxRetries then slept @ [backoffMs * attempt] else slept))
                \<noteq> Inl None"
            by (rule "1.IH"[OF \<open>attempt \<le> maxRetries\<close> Pair[symmetric] Inl False]) simp
          with \<open>attempt \<le> maxRetries\<close> Pair Inl False show ?thesis
            by (subst withRetry_loop.simps) simp
        qed
      qed
    qed
  qed
qed

lemma withRetry_outcome_defined:
  "1 \<le> maxRetries \<Longrightarrow> outcome (withRetry operation maxRetries backoffMs s) \<noteq> Inl None"
  unfolding withRetry_def by (rule withRetry_loop_outcome_defined) simp

text \<open>
  C4. With \<open>maxRetries = 0\<close> the loop body never runs: the operation is not called and
  \<^verbatim>\<open>throw lastError!\<close> throws \<^verbatim>\<open>undefined\<close>. The three lemmas above are the claim
  for \<open>maxRetries\<close> of at least 1.
\<close>

theorem withRetry_zero_maxRetries_no_attempt:
  "withRetry operation 0 backoffMs s
   = \<lparr>outcome = Inl None, final_state = s, attempts = 0, sleeps = []\<rparr>"
  by (rule withRetry_no_attempt) simp

text \<open>
  Inside \<^verbatim>\<open>generateText\<close>, a provider that never answers before the timer is called once.
\<close>

lemma generateText_try_timer_first:
  "generateText_try cfg (\<lambda>calls p. Timer_first) request n
   = (Inl (Thrown_GeminiError (parseGeminiError (timeout_error (timeout cfg)))),
      [generateContent_parameters cfg request])"
proof -
  let ?op = "\<lambda>calls. case callGeminiAPI cfg (\<lambda>calls p. Timer_first) request calls of
                      (promise, calls') \<Rightarrow> (withTimeout promise (timeout cfg), calls')"
  have op: "?op [] = (Inl (Thrown_value (timeout_error (timeout cfg))),
                      [generateContent_parameters cfg request])"
    unfolding callGeminiAPI_def withTimeout_def by simp
  have nr: "isNonRetryableError (Thrown_value (timeout_error (timeout cfg)))"
    unfolding isNonRetryableError_def isRetryable_def
    by (simp add: parseGeminiError_timeout_error)
  have "withRetry ?op 3 1000 []
        = \<lparr>outcome = Inl (Some (Thrown_value (timeout_error (timeout cfg)))),
           final_state = [generateContent_parameters cfg request], attempts = 1, sleeps = []\<rparr>"
  proof (rule withRetry_non_retryable_once[where operation = ?op and s = "[]"])
    show "(1::int) \<le> 3" by simp
    show "?op [] = (Inl (Thrown_value (timeout_error (timeout cfg))),
                    [generateContent_parameters cfg request])" by (rule op)
    show "isNonRetryableError (Thrown_value (timeout_error (timeout cfg)))" by (rule nr)
  qed
  then show ?thesis
    unfolding generateText_try_def Let_def by (simp add: error_object_def)
qed

text \<open>
  C1. When the timer fires first, \<^verbatim>\<open>withTimeout\<close> rejects with a plain \<^verbatim>\<open>Error\<close>
  whose name is \<^verbatim>\<open>'Error'\<close> and which has no code: \<^verbatim>\<open>parseGeminiError\<close> classifies
  it \<^verbatim>\<open>UNKNOWN\<close>, which is not retryable, and \<^verbatim>\<open>withRetry\<close> propagates it after one
  attempt, whatever the timeout; \<^verbatim>\<open>generateText\<close> then throws the \<^verbatim>\<open>UNKNOWN\<close> error after
  a single call of the provider.
\<close>

theorem withTimeout_rejection_is_not_retried:
  "withTimeout Timer_first timeoutMs = Inl (Thrown_value (timeout_error timeoutMs))
   \<and> type (parseGeminiError (timeout_error timeoutMs)) = UNKNOWN
   \<and> \<not> isRetryable (parseGeminiError (timeout_error timeoutMs))
   \<and> withRetry (\<lambda>calls. (withTimeout Timer_first timeoutMs, Suc calls)) 3 1000 0
       = \<lparr>outcome = Inl (Some (Thrown_value (timeout_error timeoutMs))),
          final_state = Suc 0, attempts = 1, sleeps = []\<rparr>
   \<and> generateText_try cfg (\<lambda>calls p. Timer_first) request n
       = (Inl (Thrown_GeminiError (parseGeminiError (timeout_error (timeout cfg)))),
          [generateContent_parameters cfg request])"
proof -
  have a: "withTimeout Timer_first timeoutMs = Inl (Thrown_value (timeout_error timeoutMs))"
    unfolding withTimeout_def by simp
  have b: "type (parseGeminiError (timeout_error timeoutMs)) = UNKNOWN"
    by (rule parseGeminiError_timeout_error)
  have c: "\<not> isRetryable (parseGeminiError (timeout_error timeoutMs))"
    unfolding isRetryable_def b by simp
  have d: "isNonRetryableError (Thrown_value (timeout_error timeoutMs))"
    unfolding isNonRetryableError_def using c by simp
  have "withRetry (\<lambda>calls. (withTimeout Timer_first timeoutMs, Suc calls)) 3 1000 0
       = \<lparr>outcome = Inl (Some (Thrown_value (timeout_error timeoutMs))),
          final_state = Suc 0, attempts = 1, sleeps = []\<rparr>"
    by (rule withRetry_non_retryable_once) (simp_all add: a d)
  with a b c generateText_try_timer_first show ?thesis by blast
qed

section \<open>The pre-flight check of generateText\<close>

lemma snd_callGeminiAPI:
  "snd (callGeminiAPI cfg provider request calls) = calls @ [generateContent_parameters cfg request]"
  unfolding callGeminiAPI_def by simp

lemma generateText_try_calls:
  "\<forall>p \<in> set (snd (generateText_try cfg provider request n)).
     p = generateContent_parameters cfg request"
proof -
  let ?P = "\<lambda>calls. \<forall>p \<in> set calls. p = generateContent_parameters cfg request"
  let ?op = "\<lambda>calls. case callGeminiAPI cfg provider request calls of
                      (promise, calls') \<Rightarrow> (withTimeout promise (timeout cfg), calls')"
  have step: "\<forall>calls. ?P calls \<longrightarrow> ?P (snd (?op calls))"
    by (simp add: split_beta snd_callGeminiAPI)
  have "?P (final_state (withRetry ?op 3 1000 []))"
    unfolding withRetry_def
    by (rule withRetry_loop_invariant[where P = ?P, OF _ step]) simp
  then show ?thesis
    unfolding generateText_try_def Let_def by simp
qed

text \<open>
  The reserve \<^verbatim>\<open>Math.floor(maxTokens * 0.3)\<close>. The literal \<^verbatim>\<open>0.3\<close> is a double just
  below three tenths. The product with a multiple of ten below 6670 is rounded back to the
  integer, and any other product below 2000 is at least a tenth away from an integer, so
  that the floor is that of the exact product.
\<close>

lemma three_tenths: "round_to_double (3/10) = 3/10 - 1 / (5 * 2 ^ 54)"
  by code_simp


lemma dynamicReserve_multiple_of_ten:
  fixes j :: int
  assumes j: "0 \<le> j" "j \<le> 666"
  shows "round_to_double (of_int (10 * j) * round_to_double (3/10)) = of_int (3 * j)"
proof (cases "j = 0")
  case True
  then show ?thesis by (simp add: round_to_double_def)
next
  case False
  with j have jp: "0 < j" by simp
  define x :: rat where "x = of_int (10 * j) * round_to_double (3/10)"
  have x: "x = of_int (3 * j) - of_int j / 2 ^ 53"
    unfolding x_def three_tenths by (simp add: algebra_simps)
  have j1: "(1::rat) \<le> of_int j" using jp by simp
  have j2: "(of_int j :: rat) \<le> 666" using j(2) by simp
  have small: "(of_int j :: rat) / 2 ^ 53 \<le> of_int j" using j1 by (simp add: divide_simps)
  have pos: "0 < x" unfolding x using j1 small by simp
  have below: "x < 2 ^ 53" unfolding x using j1 j2 by simp
  have "x < 2 powi (binary_exponent x + 1)" using pos by (rule binary_exponent_less)
  also have "(2::rat) powi (binary_exponent x + 1) = 2 powi (binary_exponent x - 52) * 2 ^ 53"
  proof -
    have "binary_exponent x + 1 = (binary_exponent x - 52) + 53" by simp
    then show ?thesis by (simp only: power_int_add[of "2::rat", simplified]) simp
  qed
  finally have u: "x / 2 ^ 53 < 2 powi (binary_exponent x - 52)" by (simp add: pos_divide_less_eq)
  have "\<bar>x - of_int (3 * j)\<bar> * 2 = 2 * of_int j / 2 ^ 53" unfolding x using j1 by simp
  also have "\<dots> \<le> x / 2 ^ 53" unfolding x using small by (simp add: divide_simps)
  also note u
  finally show ?thesis unfolding x_def[symmetric] by (rule round_to_double_integer[OF pos below])
qed

lemma dynamicReserve_small:
  fixes m :: int
  assumes m: "0 \<le> m" "m \<le> 6666"
  shows "\<lfloor>round_to_double (of_int m * round_to_double (3/10))\<rfloor> = (3 * m) div 10"
proof (cases "m mod 10 = 0")
  case True
  then obtain j where mj: "m = 10 * j" by auto
  with m have j: "0 \<le> j" "j \<le> 666" by simp_all
  have d: "(3 * m) div 10 = 3 * j" unfolding mj by simp
  have "\<lfloor>round_to_double (of_int (10 * j) * round_to_double (3/10))\<rfloor>
        = \<lfloor>(of_int (3 * j) :: rat)\<rfloor>"
    unfolding dynamicReserve_multiple_of_ten[OF j] ..
  also have "\<dots> = 3 * j" by (rule floor_of_int)
  finally show ?thesis unfolding d unfolding mj .
next
  case False
  define k where "k = (3 * m) div 10"
  define f where "f = (3 * m) mod 10"
  define x :: rat where "x = of_int m * round_to_double (3/10)"
  have km: "3 * m = 10 * k + f" unfolding k_def f_def by simp
  have f: "1 \<le> f" "f \<le> 9"
  proof -
    have "0 \<le> f" "f < 10" unfolding f_def by simp_all
    moreover have "f \<noteq> 0" unfolding f_def using False by presburger
    ultimately show "1 \<le> f" "f \<le> 9" by simp_all
  qed
  have "(of_int (3 * m) :: rat) = of_int (10 * k + f)" using km by simp
  then have m3: "3 * (of_int m :: rat) = 10 * of_int k + of_int f" by simp
  have mr: "(0::rat) \<le> of_int m" "(of_int m :: rat) \<le> 6666" using m by simp_all
  have fr: "(1::rat) \<le> of_int f" "(of_int f :: rat) \<le> 9" using f by simp_all
  have x: "x = 3 * of_int m / 10 - of_int m / (5 * 2 ^ 54)"
    unfolding x_def three_tenths by (simp add: algebra_simps)
  have x0: "0 \<le> x" unfolding x using mr by (simp add: divide_simps)
  have lo: "x * (1 - 1 / 2 ^ 52) \<le> round_to_double x" using x0 by (rule round_to_double_lower)
  have hi: "round_to_double x \<le> x * (1 + 1 / 2 ^ 52)" using x0 by (rule round_to_double_bounds)
  have xk: "x = of_int k + of_int f / 10 - of_int m / (5 * 2 ^ 54)"
    unfolding x using m3 by (simp add: divide_simps)
  have xle: "x \<le> 2000" unfolding x using mr by (simp add: divide_simps)
  have a: "of_int k \<le> round_to_double x"
  proof -
    have "x / 2 ^ 52 \<le> 2000 / 2 ^ 52" using xle by (simp add: divide_right_mono)
    moreover have "of_int m / (5 * 2 ^ 54) \<le> (6666::rat) / (5 * 2 ^ 54)"
      using mr(2) by (simp add: divide_right_mono)
    moreover have "x * (1 - 1 / 2 ^ 52) = x - x / 2 ^ 52" by (simp add: algebra_simps)
    ultimately show ?thesis using lo xk fr(1) by simp
  qed
  have b: "round_to_double x < of_int k + 1"
  proof -
    have "x / 2 ^ 52 \<le> 2000 / 2 ^ 52" using xle by (simp add: divide_right_mono)
    moreover have "x * (1 + 1 / 2 ^ 52) = x + x / 2 ^ 52" by (simp add: algebra_simps)
    moreover have "0 \<le> of_int m / ((5::rat) * 2 ^ 54)" using mr(1) by simp
    ultimately show ?thesis using hi xk fr(2) by simp
  qed
  from a b have "\<lfloor>round_to_double x\<rfloor> = k" by (simp add: floor_eq_iff)
  then show ?thesis unfolding x_def k_def .
qed

text \<open>
  The allowed input of \<^verbatim>\<open>validateTokenLimit\<close> in integer arithmetic: the maximum less
  the reserve for the output, which is three tenths of the maximum and at most 2000. A
  maximum above 6666 has the reserve 2000 and a negative maximum the allowed input 1,
  whatever the rounding.
\<close>

lemma validateTokenLimit_int [code]:
  "validateTokenLimit tokens limit = (tokens \<le> max 1 (limit - min 2000 ((3 * limit) div 10)))"
proof -
  define F where "F = \<lfloor>round_to_double (of_int limit * round_to_double (3/10))\<rfloor>"
  have "max 1 (limit - min 2000 F) = max 1 (limit - min 2000 ((3 * limit) div 10))"
  proof -
    consider "limit < 0" | "0 \<le> limit \<and> limit \<le> 6666" | "6667 \<le> limit" by linarith
    then show ?thesis
    proof cases
      case 1
      define y :: rat where "y = of_int (- limit) * round_to_double (3/10)"
      have y0: "0 \<le> y" unfolding y_def three_tenths using 1 by simp
      have "round_to_double y \<le> y * (1 + 1 / 2 ^ 52)" using y0 by (rule round_to_double_bounds)
      also have "\<dots> \<le> of_int (- limit)"
        unfolding y_def three_tenths using 1 by (simp add: algebra_simps)
      finally have "- of_int (- limit) \<le> - round_to_double y" by simp
      moreover have "- round_to_double y = round_to_double (of_int limit * round_to_double (3/10))"
        unfolding y_def round_to_double_minus[symmetric] by simp
      ultimately have "of_int limit \<le> round_to_double (of_int limit * round_to_double (3/10))"
        by simp
      then have "limit \<le> F" unfolding F_def by (simp add: le_floor_iff)
      moreover have "limit \<le> (3 * limit) div 10" using 1 by linarith
      ultimately show ?thesis by simp
    next
      case 2
      then show ?thesis unfolding F_def using dynamicReserve_small[of limit] by simp
    next
      case 3
      define x :: rat where "x = of_int limit * round_to_double (3/10)"
      have l: "(6667::rat) \<le> of_int limit" using 3 by simp
      have x0: "0 \<le> x" unfolding x_def three_tenths using l by simp
      have "2000 \<le> x * (1 - 1 / 2 ^ 52)"
        unfolding x_def three_tenths using l by simp
      also have "\<dots> \<le> round_to_double x" using x0 by (rule round_to_double_lower)
      finally have "2000 \<le> F" unfolding F_def x_def by (simp add: le_floor_iff)
      moreover have "2000 \<le> (3 * limit) div 10" using 3 by linarith
      ultimately show ?thesis by simp
    qed
  qed
  then show ?thesis unfolding validateTokenLimit_def Let_def F_def by simp
qed

lemma validateTokenLimit_over_budget:
  fixes tokens limit :: int
  assumes "1 \<le> limit" and "limit < tokens"
  shows "\<not> validateTokenLimit tokens limit"
  unfolding validateTokenLimit_int using assms by simp

lemma contents_generateContent_parameters:
  "contents (generateContent_parameters cfg request) = prompt request"
  unfolding generateContent_parameters_def by simp

text \<open>
  The effective maximum is not 0 unless the configured maximum is, so the methods of the
  class, which apply \<^verbatim>\<open>|| this.config.maxTokens\<close> to it once more, leave it as it is.
\<close>

lemma or_number_idem: "or_number (Some (or_number x d)) d = or_number x d"
  unfolding or_number_def by (simp split: option.splits)

lemma generateText_cases:
  fixes effectiveMax :: int
  assumes em: "effectiveMax = or_number (GenerateTextRequest.maxTokens request) (GeminiConfig.maxTokens cfg)"
  shows "generateText cfg provider request =
           (if validateTokenLimit (estimateTokens (prompt request)) effectiveMax
            then generateText_try cfg provider request (estimateTokens (prompt request))
            else if validateTokenLimit (estimateTokens (truncateText (prompt request) effectiveMax)) effectiveMax
            then generateText_try cfg provider
                   (request\<lparr>prompt := truncateText (prompt request) effectiveMax\<rparr>)
                   (estimateTokens (prompt request))
            else (Inl (Thrown_GeminiError (token_limit_error (estimateTokens (prompt request)))), []))"
  unfolding generateText_def Let_def GeminiClient_validateTokenLimit_def truncateToTokenLimit_def
    or_number_idem em
  by simp

text \<open>
  C2, as amended. The effective maximum is \<^verbatim>\<open>request.maxTokens || config.maxTokens\<close>,
  so that a request maximum of 0 falls back to the configured one, and the budget of the
  pre-flight check is the allowed input of \<^verbatim>\<open>validateTokenLimit\<close>, the effective
  maximum less the reserve for the output (three tenths of it, rounded down, and at most
  2000), and at least 1: an estimate above an effective maximum of at least 1 always
  exceeds it. When the estimate of the prompt exceeds the allowed input,
  every call that reaches the provider carries the prompt truncated to the effective
  maximum. When the estimate of the truncated prompt still exceeds the allowed input,
  \<^verbatim>\<open>generateText\<close> fails with \<^verbatim>\<open>TOKEN_LIMIT_EXCEEDED\<close> and the provider is never
  called, which is the case of every prompt whose estimate lies between the allowed input
  and the effective maximum; otherwise \<^verbatim>\<open>generateText\<close> goes on with the truncated
  prompt.
\<close>

theorem generateText_truncates_then_rejects:
  fixes effectiveMax :: int
  assumes em: "effectiveMax = or_number (GenerateTextRequest.maxTokens request) (GeminiConfig.maxTokens cfg)"
  shows "validateTokenLimit k effectiveMax
           = (k \<le> max 1 (effectiveMax - min 2000 ((3 * effectiveMax) div 10)))
         \<and> (1 \<le> effectiveMax \<and> effectiveMax < k \<longrightarrow> \<not> validateTokenLimit k effectiveMax)
         \<and> (\<not> validateTokenLimit (estimateTokens (prompt request)) effectiveMax \<longrightarrow>
               (\<forall>p \<in> set (snd (generateText cfg provider request)).
                  contents p = truncateText (prompt request) effectiveMax)
             \<and> (\<not> validateTokenLimit (estimateTokens (truncateText (prompt request) effectiveMax)) effectiveMax
                  \<longrightarrow> generateText cfg provider request
                       = (Inl (Thrown_GeminiError (token_limit_error (estimateTokens (prompt request)))), []))
             \<and> (validateTokenLimit (estimateTokens (truncateText (prompt request) effectiveMax)) effectiveMax
                  \<longrightarrow> generateText cfg provider request
                       = generateText_try cfg provider
                           (request\<lparr>prompt := truncateText (prompt request) effectiveMax\<rparr>)
                           (estimateTokens (prompt request)))
             \<and> (estimateTokens (prompt request) \<le> effectiveMax
                  \<longrightarrow> generateText cfg provider request
                       = (Inl (Thrown_GeminiError (token_limit_error (estimateTokens (prompt request)))), [])))
         \<and> type (token_limit_error k) = TOKEN_LIMIT_EXCEEDED"
proof -
  note g = generateText_cases[OF em, of provider]
  have a: "1 \<le> effectiveMax \<and> effectiveMax < k \<longrightarrow> \<not> validateTokenLimit k effectiveMax"
    using validateTokenLimit_over_budget by blast
  have e: "type (token_limit_error k) = TOKEN_LIMIT_EXCEEDED"
    unfolding token_limit_error_def by simp
  have b: "\<not> validateTokenLimit (estimateTokens (prompt request)) effectiveMax \<longrightarrow>
               (\<forall>p \<in> set (snd (generateText cfg provider request)).
                  contents p = truncateText (prompt request) effectiveMax)
             \<and> (\<not> validateTokenLimit (estimateTokens (truncateText (prompt request) effectiveMax)) effectiveMax
                  \<longrightarrow> generateText cfg provider request
                       = (Inl (Thrown_GeminiError (token_limit_error (estimateTokens (prompt request)))), []))
             \<and> (validateTokenLimit (estimateTokens (truncateText (prompt request) effectiveMax)) effectiveMax
                  \<longrightarrow> generateText cfg provider request
                       = generateText_try cfg provider
                           (request\<lparr>prompt := truncateText (prompt request) effectiveMax\<rparr>)
                           (estimateTokens (prompt request)))
             \<and> (estimateTokens (prompt request) \<le> effectiveMax
                  \<longrightarrow> generateText cfg provider request
                       = (Inl (Thrown_GeminiError (token_limit_error (estimateTokens (prompt request)))), []))"
  proof
    assume over: "\<not> validateTokenLimit (estimateTokens (prompt request)) effectiveMax"
    have b1: "\<forall>p \<in> set (snd (generateText cfg provider request)).
                contents p = truncateText (prompt request) effectiveMax"
    proof (cases "validateTokenLimit (estimateTokens (truncateText (prompt request) effectiveMax)) effectiveMax")
      case True
      have "\<forall>p \<in> set (snd (generateText cfg provider request)).
              p = generateContent_parameters cfg (request\<lparr>prompt := truncateText (prompt request) effectiveMax\<rparr>)"
        unfolding g using over True generateText_try_calls by simp
      then show ?thesis
        using contents_generateContent_parameters
                [of cfg "request\<lparr>prompt := truncateText (prompt request) effectiveMax\<rparr>"]
        by auto
    next
      case False
      then show ?thesis unfolding g using over by simp
    qed
    have b2: "\<not> validateTokenLimit (estimateTokens (truncateText (prompt request) effectiveMax)) effectiveMax
                  \<longrightarrow> generateText cfg provider request
                       = (Inl (Thrown_GeminiError (token_limit_error (estimateTokens (prompt request)))), [])"
      unfolding g using over by simp
    have b3: "validateTokenLimit (estimateTokens (truncateText (prompt request) effectiveMax)) effectiveMax
                  \<longrightarrow> generateText cfg provider request
                       = generateText_try cfg provider
                           (request\<lparr>prompt := truncateText (prompt request) effectiveMax\<rparr>)
                           (estimateTokens (prompt request))"
      unfolding g using over by simp
    have b4: "estimateTokens (prompt request) \<le> effectiveMax
                  \<longrightarrow> generateText cfg provider request
                       = (Inl (Thrown_GeminiError (token_limit_error (estimateTokens (prompt request)))), [])"
    proof
      assume "estimateTokens (prompt request) \<le> effectiveMax"
      then have "truncateText (prompt request) effectiveMax = prompt request"
        unfolding truncateText_def Let_def by simp
      then show "generateText cfg provider request
                   = (Inl (Thrown_GeminiError (token_limit_error (estimateTokens (prompt request)))), [])"
        unfolding g using over by simp
    qed
    from b1 b2 b3 b4
    show "(\<forall>p \<in> set (snd (generateText cfg provider request)).
                  contents p = truncateText (prompt request) effectiveMax)
             \<and> (\<not> validateTokenLimit (estimateTokens (truncateText (prompt request) effectiveMax)) effectiveMax
                  \<longrightarrow> generateText cfg provider request
                       = (Inl (Thrown_GeminiError (token_limit_error (estimateTokens (prompt request)))), []))
             \<and> (validateTokenLimit (estimateTokens (truncateText (prompt request) effectiveMax)) effectiveMax
                  \<longrightarrow> generateText cfg provider request
                       = generateText_try cfg provider
                           (request\<lparr>prompt := truncateText (prompt request) effectiveMax\<rparr>)
                           (estimateTokens (prompt request)))
             \<and> (estimateTokens (prompt request) \<le> effectiveMax
                  \<longrightarrow> generateText cfg provider request
                       = (Inl (Thrown_GeminiError (token_limit_error (estimateTokens (prompt request)))), []))"
      by blast
  qed
  have v: "validateTokenLimit k effectiveMax
           = (k \<le> max 1 (effectiveMax - min 2000 ((3 * effectiveMax) div 10)))"
    by (rule validateTokenLimit_int)
  from v a b e show ?thesis by blast
qed

text \<open>
  Three requests to a client with the configured maximum 8192. A prompt of 208 code units
  with the request maximum 15: its estimate is 52, the product
  \<^verbatim>\<open>208 * (15 / 52) * 0.9\<close> is rounded to a double just below 54, the first 53 code
  units are cut back to the 40 before their last space, and the provider receives those.
  The prompt of the test suite, 50000 Latin letters with no request maximum: its estimate
  is 12500, it is cut to 29491 letters, whose estimate 7373 exceeds the allowed input 6192,
  and the provider is not called. A prompt of 28000 Latin letters with no request maximum:
  its estimate 7000 is within the effective maximum and over the allowed input, the
  truncator returns it as it is, and the provider is not called.
\<close>

theorem generateText_truncates_then_rejects_witness:
  "or_number (Some 15) 8192 = (15::int)
   \<and> estimateTokens (js ''aaaaaaaaaaaaaaaaaaaaaaaaaaaaaaaaaaaaaaaa bbbbbbbbbbbb cccccccccccccccccccccccccccccccccccccccccccccccccccccccccccccccccccccccccccccccccccccccccccccccccccccccccccccccccccccccccccccccccccccccccccccccccccccccccc'') = 52
   \<and> \<not> validateTokenLimit (estimateTokens (js ''aaaaaaaaaaaaaaaaaaaaaaaaaaaaaaaaaaaaaaaa bbbbbbbbbbbb cccccccccccccccccccccccccccccccccccccccccccccccccccccccccccccccccccccccccccccccccccccccccccccccccccccccccccccccccccccccccccccccccccccccccccccccccccccccccc'')) 15
   \<and> truncateText (js ''aaaaaaaaaaaaaaaaaaaaaaaaaaaaaaaaaaaaaaaa bbbbbbbbbbbb cccccccccccccccccccccccccccccccccccccccccccccccccccccccccccccccccccccccccccccccccccccccccccccccccccccccccccccccccccccccccccccccccccccccccccccccccccccccccc'') 15 = js ''aaaaaaaaaaaaaaaaaaaaaaaaaaaaaaaaaaaaaaaa''
   \<and> validateTokenLimit (estimateTokens (truncateText (js ''aaaaaaaaaaaaaaaaaaaaaaaaaaaaaaaaaaaaaaaa bbbbbbbbbbbb cccccccccccccccccccccccccccccccccccccccccccccccccccccccccccccccccccccccccccccccccccccccccccccccccccccccccccccccccccccccccccccccccccccccccccccccccccccccccc'') 15)) 15
   \<and> map contents
         (snd (generateText
                 \<lparr>apiKey = js ''test-api-key'', GeminiConfig.model = js ''gemini-2.5-flash'',
                  GeminiConfig.maxTokens = 8192, timeout = 10000, debug = False,
                  rateLimitPerMinute = 60\<rparr>
                 (\<lambda>calls p. Settles_first
                    (Inr \<lparr>GenerateContentResponse.text = Some (js ''Hi there''),
                          GenerateContentResponse.finishReason = None\<rparr>))
                 \<lparr>prompt = js ''aaaaaaaaaaaaaaaaaaaaaaaaaaaaaaaaaaaaaaaa bbbbbbbbbbbb cccccccccccccccccccccccccccccccccccccccccccccccccccccccccccccccccccccccccccccccccccccccccccccccccccccccccccccccccccccccccccccccccccccccccccccccccccccccccc'',
                  GenerateTextRequest.model = None,
                  GenerateTextRequest.maxTokens = Some 15,
                  GenerateTextRequest.temperature = None\<rparr>))
       = [js ''aaaaaaaaaaaaaaaaaaaaaaaaaaaaaaaaaaaaaaaa'']
   \<and> or_number None 8192 = (8192::int)
   \<and> estimateTokens (replicate 50000 0x61) = 12500
   \<and> \<not> validateTokenLimit (estimateTokens (replicate 50000 0x61)) 8192
   \<and> truncateText (replicate 50000 0x61) 8192 = replicate 29491 0x61
   \<and> estimateTokens (truncateText (replicate 50000 0x61) 8192) = 7373
   \<and> \<not> validateTokenLimit (estimateTokens (truncateText (replicate 50000 0x61) 8192)) 8192
   \<and> generateText
         \<lparr>apiKey = js ''test-api-key'', GeminiConfig.model = js ''gemini-2.5-flash'',
                  GeminiConfig.maxTokens = 8192, timeout = 10000, debug = False,
                  rateLimitPerMinute = 60\<rparr>
         (\<lambda>calls p. Settles_first
                    (Inr \<lparr>GenerateContentResponse.text = Some (js ''Hi there''),
                          GenerateContentResponse.finishReason = None\<rparr>))
         \<lparr>prompt = replicate 50000 0x61,
          GenerateTextRequest.model = None,
          GenerateTextRequest.maxTokens = None,
          GenerateTextRequest.temperature = None\<rparr>
       = (Inl (Thrown_GeminiError (token_limit_error 12500)), [])
   \<and> type (token_limit_error 12500) = TOKEN_LIMIT_EXCEEDED
   \<and> estimateTokens (replicate 28000 0x61) = 7000
   \<and> \<not> validateTokenLimit (estimateTokens (replicate 28000 0x61)) 8192
   \<and> estimateTokens (replicate 28000 0x61) \<le> 8192
   \<and> generateText
         \<lparr>apiKey = js ''test-api-key'', GeminiConfig.model = js ''gemini-2.5-flash'',
                  GeminiConfig.maxTokens = 8192, timeout = 10000, debug = False,
                  rateLimitPerMinute = 60\<rparr>
         (\<lambda>calls p. Settles_first
                    (Inr \<lparr>GenerateContentResponse.text = Some (js ''Hi there''),
                          GenerateContentResponse.finishReason = None\<rparr>))
         \<lparr>prompt = replicate 28000 0x61,
          GenerateTextRequest.model = None,
          GenerateTextRequest.maxTokens = None,
          GenerateTextRequest.temperature = None\<rparr>
       = (Inl (Thrown_GeminiError (token_limit_error 7000)), [])"
proof -
  let ?cfg = "\<lparr>apiKey = js ''test-api-key'', GeminiConfig.model = js ''gemini-2.5-flash'',
                  GeminiConfig.maxTokens = 8192, timeout = 10000, debug = False,
                  rateLimitPerMinute = 60\<rparr>"
  let ?prov = "\<lambda>(calls :: GenerateContentParameters list) (p :: GenerateContentParameters).
                 Settles_first
                    (Inr \<lparr>GenerateContentResponse.text = Some (js ''Hi there''),
                          GenerateContentResponse.finishReason = None\<rparr>)"
  let ?p = "js ''aaaaaaaaaaaaaaaaaaaaaaaaaaaaaaaaaaaaaaaa bbbbbbbbbbbb cccccccccccccccccccccccccccccccccccccccccccccccccccccccccccccccccccccccccccccccccccccccccccccccccccccccccccccccccccccccccccccccccccccccccccccccccccccccccc''"
  let ?req = "\<lparr>prompt = ?p,
                  GenerateTextRequest.model = None,
                  GenerateTextRequest.maxTokens = Some 15,
                  GenerateTextRequest.temperature = None\<rparr>"
  let ?q = "replicate 50000 (0x61 :: int)"
  let ?req' = "\<lparr>prompt = ?q,
                  GenerateTextRequest.model = None,
                  GenerateTextRequest.maxTokens = None,
                  GenerateTextRequest.temperature = None\<rparr>"
  have em: "(15::int) = or_number (GenerateTextRequest.maxTokens ?req) (GeminiConfig.maxTokens ?cfg)"
    by (simp add: or_number_def)
  have est: "estimateTokens ?p = 52" by code_simp
  have over: "\<not> validateTokenLimit (estimateTokens ?p) 15"
    unfolding est validateTokenLimit_int by simp
  have tr: "truncateText ?p 15 = js ''aaaaaaaaaaaaaaaaaaaaaaaaaaaaaaaaaaaaaaaa''" by code_simp
  have est_tr: "estimateTokens (js ''aaaaaaaaaaaaaaaaaaaaaaaaaaaaaaaaaaaaaaaa'') = 10" by code_simp
  have within: "validateTokenLimit (estimateTokens (truncateText ?p 15)) 15"
    unfolding tr est_tr validateTokenLimit_int by simp
  have p: "prompt ?req = ?p" by simp
  note t1 = generateText_truncates_then_rejects[OF em, where provider = ?prov and k = 52]
  from t1 over within have sent: "\<forall>p \<in> set (snd (generateText ?cfg ?prov ?req)).
                  contents p = truncateText ?p 15"
    unfolding p by blast
  from t1 over within have "generateText ?cfg ?prov ?req
      = generateText_try ?cfg ?prov (?req\<lparr>prompt := truncateText ?p 15\<rparr>) (estimateTokens ?p)"
    unfolding p by blast
  moreover have "length (snd (generateText_try ?cfg ?prov (?req\<lparr>prompt := js ''aaaaaaaaaaaaaaaaaaaaaaaaaaaaaaaaaaaaaaaa''\<rparr>) 52)) = 1"
    by code_simp
  ultimately have len: "length (snd (generateText ?cfg ?prov ?req)) = 1"
    unfolding tr est by simp
  from sent have "\<forall>p \<in> set (snd (generateText ?cfg ?prov ?req)). contents p = js ''aaaaaaaaaaaaaaaaaaaaaaaaaaaaaaaaaaaaaaaa''"
    unfolding tr .
  with len have c1: "map contents (snd (generateText ?cfg ?prov ?req)) = [js ''aaaaaaaaaaaaaaaaaaaaaaaaaaaaaaaaaaaaaaaa'']"
    by (cases "snd (generateText ?cfg ?prov ?req)") auto
  have em': "(8192::int) = or_number (GenerateTextRequest.maxTokens ?req') (GeminiConfig.maxTokens ?cfg)"
    by (simp add: or_number_def)
  have a: "\<not> isHangul 0x61" "(0x61::int) \<noteq> 0x20" by (simp_all add: isHangul_def)
  have est': "estimateTokens ?q = 12500"
    unfolding estimateTokens_replicate[OF a(1)] by simp
  have over': "\<not> validateTokenLimit (estimateTokens ?q) 8192"
    unfolding est' validateTokenLimit_int by simp
  have "\<lfloor>round_to_double
            (round_to_double (50000 * round_to_double (8192 / 12500)) * round_to_double (9/10))\<rfloor>
        = (29491 :: int)"
    by code_simp
  then have T: "\<lfloor>round_to_double
            (round_to_double
               (of_nat 50000 * round_to_double (of_int 8192 / of_int (estimateTokens ?q)))
             * round_to_double (9/10))\<rfloor> = int 29491"
    unfolding est' by simp
  have "truncateText ?q 8192 = replicate (min 29491 50000) 0x61"
    by (rule truncateText_replicate[OF a(2) _ T]) (simp add: est')
  then have tr': "truncateText ?q 8192 = replicate 29491 0x61" by simp
  have est_tr': "estimateTokens (truncateText ?q 8192) = 7373"
    unfolding tr' estimateTokens_replicate[OF a(1)] by simp
  have still: "\<not> validateTokenLimit (estimateTokens (truncateText ?q 8192)) 8192"
    unfolding est_tr' validateTokenLimit_int by simp
  have q: "prompt ?req' = ?q" by simp
  note t2 = generateText_truncates_then_rejects[OF em', where provider = ?prov and k = 12500]
  from t2 over' still have rej: "generateText ?cfg ?prov ?req'
      = (Inl (Thrown_GeminiError (token_limit_error (estimateTokens ?q))), [])"
    unfolding q by blast
  from t2 have ty: "type (token_limit_error 12500) = TOKEN_LIMIT_EXCEEDED" by blast
  let ?w = "replicate 28000 (0x61 :: int)"
  let ?req3 = "\<lparr>prompt = ?w,
                  GenerateTextRequest.model = None,
                  GenerateTextRequest.maxTokens = None,
                  GenerateTextRequest.temperature = None\<rparr>"
  have em3: "(8192::int) = or_number (GenerateTextRequest.maxTokens ?req3) (GeminiConfig.maxTokens ?cfg)"
    by (simp add: or_number_def)
  have est3: "estimateTokens ?w = 7000"
    unfolding estimateTokens_replicate[OF a(1)] by simp
  have over3: "\<not> validateTokenLimit (estimateTokens ?w) 8192"
    unfolding est3 validateTokenLimit_int by simp
  have le3: "estimateTokens ?w \<le> 8192" unfolding est3 by simp
  have w: "prompt ?req3 = ?w" by simp
  note t3 = generateText_truncates_then_rejects[OF em3, where provider = ?prov and k = 7000]
  from t3 over3 le3 have "generateText ?cfg ?prov ?req3
      = (Inl (Thrown_GeminiError (token_limit_error (estimateTokens ?w))), [])"
    unfolding w by blast
  note rej3 = this[unfolded est3]
  have o1: "or_number (Some 15) 8192 = (15::int)" and o2: "or_number None 8192 = (8192::int)"
    by (simp_all add: or_number_def)
  note rej' = rej[unfolded est']
  show ?thesis
    by (intro conjI o1 est over tr within c1 o2 est' over' tr' est_tr' still rej' ty
          est3 over3 le3 rej3)
qed

text \<open>
  The claim as stated takes \<^verbatim>\<open>request.maxTokens ?? config.maxTokens\<close> for the effective
  maximum, which is 0 for a request with \<^verbatim>\<open>maxTokens: 0\<close>. The estimate of the prompt
  "Hello" exceeds 0 and the truncator cuts it to the empty string for the budget 0, but the
  program checks it against the configured 8192 and sends it whole.
\<close>

theorem generateText_zero_maxTokens_counterexample:
  "with_default (Some 0) (8192::int) = 0
   \<and> 0 < estimateTokens (js ''Hello'')
   \<and> truncateText (js ''Hello'') 0 = []
   \<and> map contents
         (snd (generateText
                 \<lparr>apiKey = js ''test-api-key'', GeminiConfig.model = js ''gemini-2.5-flash'',
                  GeminiConfig.maxTokens = 8192, timeout = 10000, debug = False,
                  rateLimitPerMinute = 60\<rparr>
                 (\<lambda>calls p. Settles_first
                    (Inr \<lparr>GenerateContentResponse.text = Some (js ''Hi there''),
                          GenerateContentResponse.finishReason = None\<rparr>))
                 \<lparr>prompt = js ''Hello'',
                  GenerateTextRequest.model = None,
                  GenerateTextRequest.maxTokens = Some 0,
                  GenerateTextRequest.temperature = None\<rparr>))
       = [js ''Hello'']"
  by code_simp

section \<open>Falsy fields of a request\<close>

lemma generateContent_parameters_temperature_zero:
  "generateContent_parameters cfg (request\<lparr>GenerateTextRequest.temperature := Some 0\<rparr>)
   = generateContent_parameters cfg (request\<lparr>GenerateTextRequest.temperature := None\<rparr>)"
  unfolding generateContent_parameters_def or_number_def by simp

lemma generateContent_parameters_maxTokens_zero:
  "generateContent_parameters cfg (request\<lparr>GenerateTextRequest.maxTokens := Some 0\<rparr>)
   = generateContent_parameters cfg (request\<lparr>GenerateTextRequest.maxTokens := None\<rparr>)"
  unfolding generateContent_parameters_def or_number_def by simp

lemma generateText_try_cong:
  assumes "generateContent_parameters cfg request = generateContent_parameters cfg request'"
    and "GenerateTextRequest.model request = GenerateTextRequest.model request'"
  shows "generateText_try cfg provider request n = generateText_try cfg provider request' n"
  unfolding generateText_try_def callGeminiAPI_def assms ..

lemma generateText_temperature_zero:
  "generateText cfg provider (request\<lparr>GenerateTextRequest.temperature := Some 0\<rparr>)
   = generateText cfg provider (request\<lparr>GenerateTextRequest.temperature := None\<rparr>)"
proof -
  have "\<And>x n. generateText_try cfg provider
                 (request\<lparr>GenerateTextRequest.temperature := Some 0, prompt := x\<rparr>) n
               = generateText_try cfg provider
                 (request\<lparr>GenerateTextRequest.temperature := None, prompt := x\<rparr>) n"
    by (intro generateText_try_cong)
       (simp_all add: generateContent_parameters_def or_number_def)
  moreover have "\<And>n. generateText_try cfg provider
                 (request\<lparr>GenerateTextRequest.temperature := Some 0\<rparr>) n
               = generateText_try cfg provider
                 (request\<lparr>GenerateTextRequest.temperature := None\<rparr>) n"
    using generateContent_parameters_temperature_zero[of cfg request]
    by (intro generateText_try_cong) simp_all
  ultimately show ?thesis
    unfolding generateText_def Let_def by simp
qed

lemma generateText_maxTokens_zero:
  "generateText cfg provider (request\<lparr>GenerateTextRequest.maxTokens := Some 0\<rparr>)
   = generateText cfg provider (request\<lparr>GenerateTextRequest.maxTokens := None\<rparr>)"
proof -
  have "\<And>x n. generateText_try cfg provider
                 (request\<lparr>GenerateTextRequest.maxTokens := Some 0, prompt := x\<rparr>) n
               = generateText_try cfg provider
                 (request\<lparr>GenerateTextRequest.maxTokens := None, prompt := x\<rparr>) n"
    by (intro generateText_try_cong)
       (simp_all add: generateContent_parameters_def or_number_def)
  moreover have "\<And>n. generateText_try cfg provider
                 (request\<lparr>GenerateTextRequest.maxTokens := Some 0\<rparr>) n
               = generateText_try cfg provider
                 (request\<lparr>GenerateTextRequest.maxTokens := None\<rparr>) n"
    using generateContent_parameters_maxTokens_zero[of cfg request]
    by (intro generateText_try_cong) simp_all
  ultimately show ?thesis
    unfolding generateText_def Let_def by (simp add: or_number_def)
qed

lemma generateText_calls:
  assumes "p \<in> set (snd (generateText cfg provider request))"
  shows "\<exists>x. p = generateContent_parameters cfg (request\<lparr>prompt := x\<rparr>)"
proof -
  have a: "\<And>x n. p \<in> set (snd (generateText_try cfg provider (request\<lparr>prompt := x\<rparr>) n))
             \<Longrightarrow> ?thesis"
    using generateText_try_calls by blast
  have b: "request\<lparr>prompt := prompt request\<rparr> = request" by simp
  show ?thesis
    using assms a[of "prompt request"] a unfolding b generateText_def Let_def
    by (auto split: if_splits)
qed

lemma generateText_calls_config:
  assumes "p \<in> set (snd (generateText cfg provider request))"
  shows "GenerationConfig.temperature (config p)
           = or_number (GenerateTextRequest.temperature request) (7/10)"
    and "maxOutputTokens (config p)
           = or_number (GenerateTextRequest.maxTokens request) (GeminiConfig.maxTokens cfg)"
  using generateText_calls[OF assms] by (auto simp: generateContent_parameters_def)

text \<open>
  C10. A request with temperature 0 behaves as the same request without a temperature, and
  a request with \<^verbatim>\<open>maxTokens\<close> 0 as the same request without \<^verbatim>\<open>maxTokens\<close>: the
  outcome and the calls made to the provider are equal. The calls carry the temperature 0.7
  and the configured maximum, and no call of any request carries the temperature 0.
\<close>

theorem generateText_zero_is_omitted:
  "generateText cfg provider (request\<lparr>GenerateTextRequest.temperature := Some 0\<rparr>)
     = generateText cfg provider (request\<lparr>GenerateTextRequest.temperature := None\<rparr>)
   \<and> generateText cfg provider (request\<lparr>GenerateTextRequest.maxTokens := Some 0\<rparr>)
     = generateText cfg provider (request\<lparr>GenerateTextRequest.maxTokens := None\<rparr>)
   \<and> (\<forall>p \<in> set (snd (generateText cfg provider
                           (request\<lparr>GenerateTextRequest.temperature := Some 0\<rparr>))).
         GenerationConfig.temperature (config p) = 7/10)
   \<and> (\<forall>p \<in> set (snd (generateText cfg provider
                           (request\<lparr>GenerateTextRequest.maxTokens := Some 0\<rparr>))).
         maxOutputTokens (config p) = GeminiConfig.maxTokens cfg)
   \<and> (\<forall>p \<in> set (snd (generateText cfg provider request)).
         GenerationConfig.temperature (config p) \<noteq> 0)"
proof -
  have c: "\<forall>p \<in> set (snd (generateText cfg provider
                           (request\<lparr>GenerateTextRequest.temperature := Some 0\<rparr>))).
         GenerationConfig.temperature (config p) = 7/10"
    using generateText_calls_config(1) by (fastforce simp: or_number_def)
  have d: "\<forall>p \<in> set (snd (generateText cfg provider
                           (request\<lparr>GenerateTextRequest.maxTokens := Some 0\<rparr>))).
         maxOutputTokens (config p) = GeminiConfig.maxTokens cfg"
    using generateText_calls_config(2) by (fastforce simp: or_number_def)
  have e: "\<forall>p \<in> set (snd (generateText cfg provider request)).
         GenerationConfig.temperature (config p) \<noteq> 0"
  proof
    fix p assume "p \<in> set (snd (generateText cfg provider request))"
    then have "GenerationConfig.temperature (config p)
           = or_number (GenerateTextRequest.temperature request) (7/10)"
      by (rule generateText_calls_config(1))
    then show "GenerationConfig.temperature (config p) \<noteq> 0"
      by (simp add: or_number_def split: option.splits)
  qed
  from generateText_temperature_zero generateText_maxTokens_zero c d e show ?thesis by blast
qed

theorem generateText_zero_is_omitted_witness:
  "map (\<lambda>p. GenerationConfig.temperature (config p))
     (snd (generateText
             \<lparr>apiKey = js ''test-api-key'', GeminiConfig.model = js ''gemini-2.5-flash'',
              GeminiConfig.maxTokens = 8192, timeout = 10000, debug = False,
              rateLimitPerMinute = 60\<rparr>
             (\<lambda>calls p. Settles_first
                (Inr \<lparr>GenerateContentResponse.text = Some (js ''Hi there''),
                      GenerateContentResponse.finishReason = None\<rparr>))
             \<lparr>prompt = js ''Hello'', GenerateTextRequest.model = None,
              GenerateTextRequest.maxTokens = Some 0,
              GenerateTextRequest.temperature = Some 0\<rparr>))
   = [7/10]
   \<and> map (\<lambda>p. maxOutputTokens (config p))
     (snd (generateText
             \<lparr>apiKey = js ''test-api-key'', GeminiConfig.model = js ''gemini-2.5-flash'',
              GeminiConfig.maxTokens = 8192, timeout = 10000, debug = False,
              rateLimitPerMinute = 60\<rparr>
             (\<lambda>calls p. Settles_first
                (Inr \<lparr>GenerateContentResponse.text = Some (js ''Hi there''),
                      GenerateContentResponse.finishReason = None\<rparr>))
             \<lparr>prompt = js ''Hello'', GenerateTextRequest.model = None,
              GenerateTextRequest.maxTokens = Some 0,
              GenerateTextRequest.temperature = Some 0\<rparr>))
   = [8192]"
proof -
  let ?cfg = "\<lparr>apiKey = js ''test-api-key'', GeminiConfig.model = js ''gemini-2.5-flash'',
              GeminiConfig.maxTokens = 8192, timeout = 10000, debug = False,
              rateLimitPerMinute = 60\<rparr>"
  let ?prov = "\<lambda>(calls :: GenerateContentParameters list) (p :: GenerateContentParameters).
                 Settles_first
                    (Inr \<lparr>GenerateContentResponse.text = Some (js ''Hi there''),
                          GenerateContentResponse.finishReason = None\<rparr>)"
  let ?req = "\<lparr>prompt = js ''Hello'', GenerateTextRequest.model = None,
              GenerateTextRequest.maxTokens = Some 0,
              GenerateTextRequest.temperature = Some 0\<rparr>"
  let ?calls = "snd (generateText ?cfg ?prov ?req)"
  have len: "length ?calls = 1" by code_simp
  have t: "\<forall>p \<in> set ?calls. GenerationConfig.temperature (config p) = 7/10"
    using generateText_zero_is_omitted[of ?cfg ?prov ?req] by simp
  have m: "\<forall>p \<in> set ?calls. maxOutputTokens (config p) = 8192"
    using generateText_zero_is_omitted[of ?cfg ?prov ?req] by simp
  from len obtain p where p: "?calls = [p]"
    by (cases ?calls) auto
  from t m show ?thesis unfolding p by simp
qed

section \<open>Tag generation\<close>

text \<open>
  C6. When the trimmed content is shorter than 100 code units, \<^verbatim>\<open>generateTags\<close> fails
  with the \<^verbatim>\<open>INVALID_INPUT\<close> error and the log of requests sent to the client is empty:
  \<^verbatim>\<open>generateText\<close> is never called.
\<close>

theorem generateTags_short_content_rejected:
  assumes "length (trim (content request)) < 100"
  shows "generateTags client request
         = (Inl \<lparr>type = INVALID_INPUT, message = invalid_input_message,
                 originalError = None, statusCode = None\<rparr>, [])"
  unfolding generateTags_def Let_def using assms by simp

theorem generateTags_short_content_rejected_witness:
  "length (trim [0xC9E7, 0xC740, 0x0020, 0xB0B4, 0xC6A9]) < 100
   \<and> generateTags (\<lambda>call. Inl (Thrown_value (new_Error (js ''API Error''))))
        \<lparr>content = [0xC9E7, 0xC740, 0x0020, 0xB0B4, 0xC6A9], maxTags = None,
         GenerateTagsRequest.model = None, GenerateTagsRequest.maxTokens = None\<rparr>
      = (Inl \<lparr>type = INVALID_INPUT, message = invalid_input_message,
               originalError = None, statusCode = None\<rparr>, [])"
proof -
  have short: "length (trim [0xC9E7, 0xC740, 0x0020, 0xB0B4, 0xC6A9]) < 100"
    by code_simp
  show ?thesis
    using short
      generateTags_short_content_rejected
        [of "\<lparr>content = [0xC9E7, 0xC740, 0x0020, 0xB0B4, 0xC6A9], maxTags = None,
             GenerateTagsRequest.model = None, GenerateTagsRequest.maxTokens = None\<rparr>"
            "\<lambda>call. Inl (Thrown_value (new_Error (js ''API Error'')))"]
    by simp
qed

lemma generateTags_try_call:
  "snd (generateTags_try client c mt mo mx) = [call] \<Longrightarrow>
   (\<forall>g. client call = Inl (Thrown_GeminiError g)
        \<longrightarrow> fst (generateTags_try client c mt mo mx) = Inl g)
   \<and> (\<forall>e. client call = Inl (Thrown_value e)
        \<longrightarrow> fst (generateTags_try client c mt mo mx) = Inl (wrapped_error e))"
  unfolding generateTags_try_def Let_def
  by (auto split: sum.splits thrown.splits)

lemma generateTags_reaches_try:
  assumes "snd (generateTags client request) = [call]"
  shows "\<exists>c. generateTags client request
            = generateTags_try client c (with_default (maxTags request) 6)
                (GenerateTagsRequest.model request)
                (with_default (GenerateTagsRequest.maxTokens request) 2000)"
  using assms unfolding generateTags_def Let_def
  by (auto split: if_splits)

text \<open>
  C7, as amended. When \<^verbatim>\<open>generateTags\<close> has called the client and the call threw a
  \<^verbatim>\<open>GeminiError\<close>, the same error is thrown again; when it threw any other value, the
  value is wrapped in an error of type \<^verbatim>\<open>API_ERROR\<close>, which is not retryable and has the
  user message of \<^verbatim>\<open>UNKNOWN\<close>, and whose message is a fixed prefix followed by the
  message of the value.
\<close>

theorem generateTags_rethrows_or_wraps:
  assumes "snd (generateTags client request) = [call]"
  shows "(\<forall>g. client call = Inl (Thrown_GeminiError g)
            \<longrightarrow> fst (generateTags client request) = Inl g)
         \<and> (\<forall>e. client call = Inl (Thrown_value e)
            \<longrightarrow> fst (generateTags client request) = Inl (wrapped_error e)
                \<and> type (wrapped_error e) = API_ERROR
                \<and> \<not> isRetryable (wrapped_error e)
                \<and> getUserMessage (wrapped_error e)
                    = getUserMessage ((wrapped_error e)\<lparr>type := UNKNOWN\<rparr>))"
proof -
  from generateTags_reaches_try[OF assms] obtain c where
    c: "generateTags client request
            = generateTags_try client c (with_default (maxTags request) 6)
                (GenerateTagsRequest.model request)
                (with_default (GenerateTagsRequest.maxTokens request) 2000)" ..
  have w: "\<And>e. type (wrapped_error e) = API_ERROR
                \<and> \<not> isRetryable (wrapped_error e)
                \<and> getUserMessage (wrapped_error e)
                    = getUserMessage ((wrapped_error e)\<lparr>type := UNKNOWN\<rparr>)"
    unfolding wrapped_error_def isRetryable_def getUserMessage_def by simp
  from generateTags_try_call[of client c _ _ _ call] assms w
  show ?thesis unfolding c by simp
qed

lemma generateTags_within_budget:
  assumes "\<not> length (trim (content request)) < 100"
    and "validateTokenLimit (estimateTokens (content request))
           (with_default (GenerateTagsRequest.maxTokens request) 2000)"
  shows "generateTags client request
         = generateTags_try client (content request) (with_default (maxTags request) 6)
             (GenerateTagsRequest.model request)
             (with_default (GenerateTagsRequest.maxTokens request) 2000)"
proof -
  have "content request \<noteq> []" using assms(1) by (auto simp: trim_def)
  then show ?thesis
    unfolding generateTags_def Let_def using assms by simp
qed

lemma snd_generateTags_try:
  "snd (generateTags_try client c mt mo mx)
   = [\<lparr>prompt = createTagPrompt c mt,
       GenerateTextRequest.model = Some (or_string mo (js ''gemini-2.0-flash-001'')),
       GenerateTextRequest.maxTokens = Some mx,
       GenerateTextRequest.temperature = Some (3/10)\<rparr>]"
  unfolding generateTags_try_def Let_def by simp

theorem generateTags_rethrows_or_wraps_witness:
  "snd (generateTags
          (\<lambda>call. Inl (Thrown_GeminiError
                          \<lparr>type = QUOTA_EXCEEDED, message = js ''API quota exceeded'',
                           originalError = None, statusCode = Some 429\<rparr>))
          \<lparr>content = js ''This note is about software development: programming, coding, testing, debugging and refactoring of code.'',
           maxTags = None, GenerateTagsRequest.model = None,
           GenerateTagsRequest.maxTokens = None\<rparr>) \<noteq> []
   \<and> fst (generateTags
          (\<lambda>call. Inl (Thrown_GeminiError
                          \<lparr>type = QUOTA_EXCEEDED, message = js ''API quota exceeded'',
                           originalError = None, statusCode = Some 429\<rparr>))
          \<lparr>content = js ''This note is about software development: programming, coding, testing, debugging and refactoring of code.'',
           maxTags = None, GenerateTagsRequest.model = None,
           GenerateTagsRequest.maxTokens = None\<rparr>)
     = Inl \<lparr>type = QUOTA_EXCEEDED, message = js ''API quota exceeded'',
            originalError = None, statusCode = Some 429\<rparr>"
proof -
  let ?g = "\<lparr>type = QUOTA_EXCEEDED, message = js ''API quota exceeded'',
             originalError = None, statusCode = Some 429\<rparr>"
  let ?client = "\<lambda>call :: GenerateTextRequest.
                   (Inl (Thrown_GeminiError ?g) :: thrown + GenerateTextResponse)"
  let ?c = "js ''This note is about software development: programming, coding, testing, debugging and refactoring of code.''"
  let ?req = "\<lparr>content = ?c, maxTags = None, GenerateTagsRequest.model = None,
           GenerateTagsRequest.maxTokens = None\<rparr>"
  have long: "\<not> length (trim ?c) < 100" by code_simp
  have fits: "validateTokenLimit (estimateTokens ?c) 2000" by code_simp
  have "generateTags ?client ?req
         = generateTags_try ?client (content ?req) (with_default (maxTags ?req) 6)
             (GenerateTagsRequest.model ?req)
             (with_default (GenerateTagsRequest.maxTokens ?req) 2000)"
    by (rule generateTags_within_budget) (simp_all only: GenerateTagsRequest.simps long fits with_default_def option.simps not_False_eq_True)
  then obtain call where call: "snd (generateTags ?client ?req) = [call]"
    using snd_generateTags_try by metis
  from generateTags_rethrows_or_wraps[OF call]
  have "fst (generateTags ?client ?req) = Inl ?g" by simp
  with call show ?thesis by simp
qed

lemma fst_generateTags_try_wraps:
  assumes "\<And>call. client call = Inl (Thrown_value e)"
  shows "fst (generateTags_try client c mt mo mx) = Inl (wrapped_error e)"
  unfolding generateTags_try_def Let_def assms by simp

text \<open>
  The claim as stated fails on the type: the wrapped error of the mocked rejection
  \<^verbatim>\<open>new Error('API Error')\<close> has the type \<^verbatim>\<open>API_ERROR\<close>, not \<^verbatim>\<open>UNKNOWN\<close>, and its
  message carries the message of the cause.
\<close>

theorem generateTags_wraps_as_API_ERROR_counterexample:
  "fst (generateTags
          (\<lambda>call. Inl (Thrown_value (new_Error (js ''API Error''))))
          \<lparr>content = js ''This note is about software development: programming, coding, testing, debugging and refactoring of code.'',
           maxTags = None, GenerateTagsRequest.model = None,
           GenerateTagsRequest.maxTokens = None\<rparr>)
     = Inl \<lparr>type = API_ERROR, message = api_error_prefix @ js ''API Error'',
            originalError = Some (new_Error (js ''API Error'')), statusCode = None\<rparr>
   \<and> API_ERROR \<noteq> UNKNOWN"
proof -
  let ?client = "\<lambda>call :: GenerateTextRequest.
      (Inl (Thrown_value (new_Error (js ''API Error''))) :: thrown + GenerateTextResponse)"
  let ?c = "js ''This note is about software development: programming, coding, testing, debugging and refactoring of code.''"
  let ?req = "\<lparr>content = ?c, maxTags = None, GenerateTagsRequest.model = None,
           GenerateTagsRequest.maxTokens = None\<rparr>"
  have long: "\<not> length (trim ?c) < 100" by code_simp
  have fits: "validateTokenLimit (estimateTokens ?c) 2000" by code_simp
  have "generateTags ?client ?req
         = generateTags_try ?client (content ?req) (with_default (maxTags ?req) 6)
             (GenerateTagsRequest.model ?req)
             (with_default (GenerateTagsRequest.maxTokens ?req) 2000)"
    by (rule generateTags_within_budget) (simp_all only: GenerateTagsRequest.simps long fits with_default_def option.simps not_False_eq_True)
  then have "fst (generateTags ?client ?req) = Inl (wrapped_error (new_Error (js ''API Error'')))"
    by (simp only: fst_generateTags_try_wraps)
  moreover have "wrapped_error (new_Error (js ''API Error''))
     = \<lparr>type = API_ERROR, message = api_error_prefix @ js ''API Error'',
            originalError = Some (new_Error (js ''API Error'')), statusCode = None\<rparr>"
    unfolding wrapped_error_def new_Error_def with_default_def by simp
  ultimately show ?thesis by simp
qed

section \<open>Parsing the reply\<close>

lemma collect_tags_step:
  obtains (skip) "collect_tags (line # lines) m acc = collect_tags lines m acc"
  | (stop) tag where "collect_tags (line # lines) m acc = acc @ [tag]"
      and "tag \<noteq> []" and "length tag \<le> 10"
  | (push) tag where "collect_tags (line # lines) m acc = collect_tags lines m (acc @ [tag])"
      and "tag \<noteq> []" and "length tag \<le> 10"
proof -
  define clean where "clean = trim line"
  define tag where "tag = trim (strip_quotes clean)"
  have eq: "collect_tags (line # lines) m acc =
     (if clean \<noteq> [] \<and> \<not> prefix [0x5B] clean \<and> \<not> prefix [0x5D] clean then
        (if tag \<noteq> [] \<and> length tag \<le> 10 then
           (if int (length (acc @ [tag])) \<ge> m then acc @ [tag]
            else collect_tags lines m (acc @ [tag]))
         else collect_tags lines m acc)
      else collect_tags lines m acc)"
    unfolding clean_def tag_def by (simp only: collect_tags.simps Let_def)
  show ?thesis
  proof (cases "clean \<noteq> [] \<and> \<not> prefix [0x5B] clean \<and> \<not> prefix [0x5D] clean")
    case False
    then have "collect_tags (line # lines) m acc = collect_tags lines m acc"
      by (subst eq) auto
    then show ?thesis by (rule skip)
  next
    case outer: True
    show ?thesis
    proof (cases "tag \<noteq> [] \<and> length tag \<le> 10")
      case False
      with outer have "collect_tags (line # lines) m acc = collect_tags lines m acc"
        by (subst eq) auto
      then show ?thesis by (rule skip)
    next
      case inner: True
      show ?thesis
      proof (cases "int (length (acc @ [tag])) \<ge> m")
        case True
        with outer inner have "collect_tags (line # lines) m acc = acc @ [tag]"
          by (subst eq) auto
        then show ?thesis using inner by (intro stop[of tag]) simp_all
      next
        case False
        with outer inner have "collect_tags (line # lines) m acc = collect_tags lines m (acc @ [tag])"
          by (subst eq) auto
        then show ?thesis using inner by (intro push[of tag]) simp_all
      qed
    qed
  qed
qed

lemma collect_tags_short:
  "\<forall>t \<in> set acc. t \<noteq> [] \<and> length t \<le> 10 \<Longrightarrow>
   \<forall>t \<in> set (collect_tags lines m acc). t \<noteq> [] \<and> length t \<le> 10"
proof (induction lines arbitrary: acc)
  case Nil
  then show ?case by simp
next
  case (Cons line lines)
  show ?case
  proof (cases rule: collect_tags_step[of line lines m acc])
    case skip
    then show ?thesis using Cons.IH[OF Cons.prems] by simp
  next
    case (stop tag)
    then show ?thesis using Cons.prems by simp
  next
    case (push tag)
    have "\<forall>t \<in> set (acc @ [tag]). t \<noteq> [] \<and> length t \<le> 10"
      using Cons.prems push(2,3) by simp
    from Cons.IH[OF this] show ?thesis using push(1) by simp
  qed
qed

lemma set_slice0: "set (slice0 xs n) \<subseteq> set xs"
  unfolding slice0_def by (auto dest: in_set_takeD)

lemma parseTagsResponse_fallback_short:
  assumes "bracket_match response = None"
  shows "\<forall>t \<in> set (parseTagsResponse response m). t \<noteq> [] \<and> length t \<le> 10"
proof -
  have "\<forall>t \<in> set (collect_tags (split_on 0x0A response) m []). t \<noteq> [] \<and> length t \<le> 10"
    by (rule collect_tags_short) simp
  then show ?thesis
    unfolding parseTagsResponse_def Let_def assms using set_slice0 by fastforce
qed

text \<open>
  C8. A reply that is a JSON array keeps a tag of twenty characters: the branch of the array
  filters empty strings and values that are not strings, and has no check of the length.
  The fallback over the lines has it, as the two lemmas around show.
\<close>

theorem parseTagsResponse_keeps_long_tag_of_array:
  \<open>10 < length (js ''averyveryverylongtag'')
   \<and> parseTagsResponse (js ''["dev", "averyveryverylongtag", "code"]'') 5
     = [js ''dev'', js ''averyveryverylongtag'', js ''code'']\<close>
  by code_simp

lemma parseTagsResponse_lines_example:
  "parseTagsResponse (js ''dev'' @ [0x0A] @ js ''averyveryverylongtag'' @ [0x0A] @ js ''code'') 5
     = [js ''dev'', js ''code'']"
  by code_simp

end
